theory Spec2Isabelle
  imports Complex_Main "HOL-Library.Multiset" "HOL-Library.List_Lexorder" "HOL-Library.Char_ord"
    "HOL-Library.Product_Lexorder"
begin

section \<open>Tables and pandas primitives\<close>

text \<open>
  A DataFrame is a list of rows in frame order. \<open>groupby\<close> with pandas' default
  \<open>sort=True\<close> visits the distinct keys in ascending order and hands out, for each key,
  the rows carrying it in frame order.
\<close>

definition groupby :: "('a \<Rightarrow> 'k::linorder) \<Rightarrow> 'a list \<Rightarrow> ('k \<times> 'a list) list" where
  "groupby f df = map (\<lambda>k. (k, filter (\<lambda>r. f r = k) df)) (sort (remdups (map f df)))"

text \<open>\<open>Series.shift(1)\<close>: every value moves down one row, the first row becomes missing.\<close>

definition shift1 :: "'a list \<Rightarrow> 'a option list" where
  "shift1 xs = (case xs of [] \<Rightarrow> [] | _ # _ \<Rightarrow> None # map Some (butlast xs))"

text \<open>\<open>s != s.shift(1)\<close>: a missing value differs from every value.\<close>

definition ne_shift :: "bool list \<Rightarrow> bool list" where
  "ne_shift bs = map2 (\<lambda>b p. Some b \<noteq> p) bs (shift1 bs)"

text \<open>\<open>cumsum\<close> of a boolean column, started at \<open>acc\<close>.\<close>

fun cumsum :: "nat \<Rightarrow> bool list \<Rightarrow> nat list" where
  "cumsum acc [] = []"
| "cumsum acc (b # bs) = (acc + (if b then 1 else 0)) # cumsum (acc + (if b then 1 else 0)) bs"

section \<open>compute\_metrics: the downtime detector\<close>

text \<open>
  The frames read by the analytics functions, with the columns their docstrings name. Every
  one of them has an \<open>hour\<close> column (seconds since the epoch, UTC, at the top of an hour).
\<close>

record hour_row =
  hour :: int

record evse_hour = hour_row +
  evse_id :: string
  charging_count :: int

text \<open>
  The body of the loop of \<open>compute_reliability_downtime\<close> for one group.
  \<open>sort_values('hour')\<close> is modelled by a stable sort: the tables written by data\_prep
  have one row per connector and hour, so no two rows of a group share an hour and the
  sorted order is the only one there is. The columns
  \<open>is_zero\<close> and \<open>run\<close> added to \<open>grp\<close> are kept beside the rows; a row of \<open>runs\<close> is
  \<open>(run, evse_id, is_zero, count_hours)\<close>.
\<close>

definition sorted_group :: "evse_hour list \<Rightarrow> evse_hour list" where
  "sorted_group grp = sort_key hour grp"

definition is_zero_col :: "evse_hour list \<Rightarrow> bool list" where
  "is_zero_col grp = map (\<lambda>r. charging_count r = 0) grp"

definition run_col :: "evse_hour list \<Rightarrow> nat list" where
  "run_col grp = cumsum 0 (ne_shift (is_zero_col grp))"

definition runs_table :: "evse_hour list \<Rightarrow> (nat \<times> string \<times> bool \<times> nat) list" where
  "runs_table grp =
     map (\<lambda>(k, rows). (k, evse_id (fst (hd rows)), fst (snd (hd rows)), length rows))
       (groupby (\<lambda>row. snd (snd row)) (zip grp (zip (is_zero_col grp) (run_col grp))))"

definition downtime_runs :: "int \<Rightarrow> evse_hour list \<Rightarrow> (nat \<times> string \<times> bool \<times> nat) list" where
  "downtime_runs gap_hours grp =
     filter (\<lambda>(k, e, z, c). z \<and> gap_hours \<le> int c) (runs_table grp)"

definition downtime_of_group :: "int \<Rightarrow> evse_hour list \<Rightarrow> nat \<times> nat" where
  "downtime_of_group gap_hours rows =
     (let runs = downtime_runs gap_hours (sorted_group rows)
      in (length runs, sum_list (map (\<lambda>(k, e, z, c). c) runs)))"

definition compute_reliability_downtime :: "evse_hour list \<Rightarrow> int \<Rightarrow> (string \<times> nat \<times> nat) list" where
  "compute_reliability_downtime df_evse gap_hours =
     map (\<lambda>(e, rows). (e, downtime_of_group gap_hours rows)) (groupby evse_id df_evse)"
text \<open>\<open>grp\<close> with its two added columns, as \<open>runs_table\<close> groups it.\<close>

definition tagged :: "evse_hour list \<Rightarrow> (evse_hour \<times> bool \<times> nat) list" where
  "tagged grp = zip grp (zip (is_zero_col grp) (run_col grp))"

text \<open>
  The zero-activity rows of the qualifying runs of a connector's sorted frame \<open>grp\<close>: the
  frame on which the idempotence property runs the detector a second time.
\<close>

definition zero_rows_of_downtime_runs :: "int \<Rightarrow> evse_hour list \<Rightarrow> evse_hour list" where
  "zero_rows_of_downtime_runs gap_hours grp =
     map fst (filter (\<lambda>(r, z, k). z \<and> k \<in> set (map fst (downtime_runs gap_hours grp)))
       (zip grp (zip (is_zero_col grp) (run_col grp))))"

text \<open>
  Example frames: the 26-hour scenario of connector \<open>C1\<close>, a frame whose hours have gaps,
  and a frame with two qualifying runs.
\<close>

definition scenario_counts :: "int list" where
  "scenario_counts = [0,0,0,5,0,0,0,0,0,0,0,0,0,0,0,0,0,0,0,0,0,0,0,0,0,3]"

definition scenario_table :: "evse_hour list" where
  "scenario_table =
     map (\<lambda>(i, c). \<lparr>hour = 3600 * int i, evse_id = ''C1'', charging_count = c\<rparr>)
       (zip [0..<26] scenario_counts)"

definition gap_table :: "evse_hour list" where
  "gap_table =
    [\<lparr>hour = 5 * 3600, evse_id = ''C1'', charging_count = 0\<rparr>,
     \<lparr>hour = 0, evse_id = ''C1'', charging_count = 4\<rparr>,
     \<lparr>hour = 3600, evse_id = ''C2'', charging_count = 0\<rparr>,
     \<lparr>hour = 3600, evse_id = ''C1'', charging_count = 0\<rparr>,
     \<lparr>hour = 6 * 3600, evse_id = ''C1'', charging_count = 0\<rparr>,
     \<lparr>hour = 30 * 3600, evse_id = ''C1'', charging_count = 2\<rparr>,
     \<lparr>hour = 31 * 3600, evse_id = ''C1'', charging_count = 0\<rparr>,
     \<lparr>hour = 40 * 3600, evse_id = ''C1'', charging_count = 0\<rparr>]"

definition idem_table :: "evse_hour list" where
  "idem_table =
    [\<lparr>hour = 0, evse_id = ''C2'', charging_count = 0\<rparr>,
     \<lparr>hour = 0, evse_id = ''C1'', charging_count = 0\<rparr>,
     \<lparr>hour = 3600, evse_id = ''C1'', charging_count = 0\<rparr>,
     \<lparr>hour = 7200, evse_id = ''C1'', charging_count = 1\<rparr>,
     \<lparr>hour = 10800, evse_id = ''C1'', charging_count = 0\<rparr>,
     \<lparr>hour = 14400, evse_id = ''C1'', charging_count = 2\<rparr>,
     \<lparr>hour = 18000, evse_id = ''C1'', charging_count = 0\<rparr>,
     \<lparr>hour = 21600, evse_id = ''C1'', charging_count = 0\<rparr>,
     \<lparr>hour = 25200, evse_id = ''C1'', charging_count = 0\<rparr>]"

section \<open>compute\_metrics: ratio and ranking functions\<close>

text \<open>
  A float64 cell. Counts are non-negative integers, so a true division only ever produces a
  finite value, the missing value (\<open>0 / 0\<close>) or positive infinity (\<open>n / 0\<close>). A finite
  value is held as the rational number it stands for; rounding to the nearest double keeps
  the order of two quotients, the bounds 0 and 1 and the equality of equal quotients.
\<close>

datatype float64 = Val rat | NaN | PosInf

definition true_div :: "nat \<Rightarrow> nat \<Rightarrow> float64" where
  "true_div a b =
     (if b \<noteq> 0 then Val (of_nat a / of_nat b) else if a = 0 then NaN else PosInf)"

record rate_row = hour_row +
  occupancy_rate :: float64

record station_hour = rate_row +
  station_id :: string

text \<open>
  \<open>sort_values(['station_id', 'occupancy_rate'], ascending=[True, False])\<close> sorts the rows
  by one composite key with a stable algorithm; a descending column has its codes reversed
  and a missing value goes last whatever the direction. \<open>desc_key\<close> is that reversed code.
\<close>

fun desc_key :: "float64 \<Rightarrow> nat \<times> rat" where
  "desc_key PosInf = (0, 0)"
| "desc_key (Val x) = (1, - x)"
| "desc_key NaN = (2, 0)"

definition sort_values_station_rate ::
  "'a station_hour_scheme list \<Rightarrow> 'a station_hour_scheme list" where
  "sort_values_station_rate df = sort_key (\<lambda>r. (station_id r, desc_key (occupancy_rate r))) df"

text \<open>
  \<open>groupby(f).head(n)\<close> keeps, in frame order, the rows whose position inside their own
  group is below \<open>n\<close>; \<open>seen\<close> holds the rows already passed. \<open>top_n\<close> is a number of rows,
  a natural number.
\<close>

fun groupby_head :: "('a \<Rightarrow> 'k) \<Rightarrow> nat \<Rightarrow> 'a list \<Rightarrow> 'a list \<Rightarrow> 'a list" where
  "groupby_head f n seen [] = []"
| "groupby_head f n seen (r # rs) =
     (if length (filter (\<lambda>s. f s = f r) seen) < n
      then r # groupby_head f n (r # seen) rs
      else groupby_head f n (r # seen) rs)"

definition compute_peak_periods ::
  "'a station_hour_scheme list \<Rightarrow> nat \<Rightarrow> 'a station_hour_scheme list" where
  "compute_peak_periods df_station top_n =
     groupby_head station_id top_n [] (sort_values_station_rate df_station)"

text \<open>The order in which a descending sort with missing values last lists two cells.\<close>

fun rate_ge :: "float64 \<Rightarrow> float64 \<Rightarrow> bool" where
  "rate_ge _ NaN = True"
| "rate_ge NaN _ = False"
| "rate_ge PosInf _ = True"
| "rate_ge (Val x) PosInf = False"
| "rate_ge (Val x) (Val y) = (y \<le> x)"

text \<open>\<open>mean\<close>, \<open>count\<close> and a comparison summed up, all of which skip missing values.\<close>

definition present :: "float64 list \<Rightarrow> float64 list" where
  "present xs = filter (\<lambda>x. x \<noteq> NaN) xs"

fun rat_of_float64 :: "float64 \<Rightarrow> rat" where
  "rat_of_float64 (Val x) = x"
| "rat_of_float64 _ = 0"

definition mean :: "float64 list \<Rightarrow> float64" where
  "mean xs =
     (if present xs = [] then NaN
      else if PosInf \<in> set xs then PosInf
      else Val (sum_list (map rat_of_float64 (present xs)) / of_nat (length (present xs))))"

fun ge_threshold :: "rat \<Rightarrow> float64 \<Rightarrow> bool" where
  "ge_threshold t (Val x) = (t \<le> x)"
| "ge_threshold t PosInf = True"
| "ge_threshold t NaN = False"

definition compute_utilization_trends ::
  "'a station_hour_scheme list \<Rightarrow> (string \<times> int \<times> float64) list" where
  "compute_utilization_trends df_station =
     map (\<lambda>((s, d), rows). (s, d, mean (map occupancy_rate rows)))
       (groupby (\<lambda>r. (station_id r, hour r div 86400)) df_station)"

definition compute_global_peak_by_hour_of_day ::
  "'a rate_row_scheme list \<Rightarrow> (int \<times> float64) list" where
  "compute_global_peak_by_hour_of_day df_station =
     map (\<lambda>(h, rows). (h, mean (map occupancy_rate rows)))
       (groupby (\<lambda>r. (hour r div 3600) mod 24) df_station)"

definition compute_capacity_pressure_messages ::
  "'a station_hour_scheme list \<Rightarrow> rat \<Rightarrow> (string \<times> nat \<times> nat \<times> float64) list" where
  "compute_capacity_pressure_messages df_station threshold =
     map (\<lambda>(s, rows).
            (let total_hours = length (present (map occupancy_rate rows));
                 high_pressure_hours = length (filter (ge_threshold threshold) (map occupancy_rate rows))
             in (s, total_hours, high_pressure_hours, true_div high_pressure_hours total_hours)))
       (groupby station_id df_station)"

text \<open>The refined module defines the same function under the name \<open>compute_capacity_pressure\<close>.\<close>

definition compute_capacity_pressure ::
  "'a station_hour_scheme list \<Rightarrow> rat \<Rightarrow> (string \<times> nat \<times> nat \<times> float64) list" where
  "compute_capacity_pressure df_station threshold =
     map (\<lambda>(s, rows).
            (let total_hours = length (present (map occupancy_rate rows));
                 high_pressure_hours = length (filter (ge_threshold threshold) (map occupancy_rate rows))
             in (s, total_hours, high_pressure_hours, true_div high_pressure_hours total_hours)))
       (groupby station_id df_station)"

section \<open>data\_prep: normalisation and hourly aggregation\<close>

datatype error = SystemExit int | KeyError string | ZeroDivisionError | NameError string

text \<open>
  One dictionary built by \<open>parse_avro_file\<close>: the four \<open>payload.get\<close> results, \<open>None\<close>
  where the key is absent or null. The timestamp string is represented by what
  \<open>pd.to_datetime(utc=True, errors='coerce')\<close> makes of it: \<open>NaT\<close> or an instant, in
  seconds since the epoch.
\<close>

datatype raw_timestamp = NaT | Instant int

record raw_record =
  raw_station_id :: "string option"
  raw_evse_id :: "string option"
  raw_status :: "string option"
  raw_timestamp :: "raw_timestamp option"

text \<open>
  An Avro file is the list of its entries; an entry without a body, or whose body does not
  decode, is \<open>None\<close> and is skipped by \<open>parse_avro_file\<close>.
\<close>

definition parse_avro_file :: "raw_record option list \<Rightarrow> raw_record list" where
  "parse_avro_file file = List.map_filter (\<lambda>rec. rec) file"

text \<open>A row of \<open>df\<close> after both \<open>dropna\<close> calls.\<close>

record canonical =
  rec_station_id :: string
  rec_evse_id :: string
  status :: string
  timestamp :: int

definition normalize :: "raw_record \<Rightarrow> canonical option" where
  "normalize r =
     (case (raw_station_id r, raw_evse_id r, raw_status r, raw_timestamp r) of
        (Some s, Some e, Some st, Some (Instant t)) \<Rightarrow>
           Some \<lparr>rec_station_id = s, rec_evse_id = e, status = st, timestamp = t\<rparr>
      | _ \<Rightarrow> None)"

text \<open>\<open>dt.floor('H')\<close>: the \<open>hour\<close> column of \<open>df_clean\<close>.\<close>

definition floor_hour :: "int \<Rightarrow> int" where
  "floor_hour t = t - t mod 3600"

definition rec_hour :: "canonical \<Rightarrow> int" where
  "rec_hour r = floor_hour (timestamp r)"

text \<open>
  A row of \<open>agg\<close>: the index \<open>(entity, hour)\<close>, one count per status column, and the three
  derived columns. The status columns of the frame are kept beside the rows, since a frame
  without rows still has, or lacks, a column. The derived columns are fields of their own:
  a status spelled like one of them is outside this model.
\<close>

record agg_row = rate_row +
  entity :: string
  counts :: "(string \<times> nat) list"
  total :: nat
  charging :: nat

record hourly_table =
  status_columns :: "string list"
  table_rows :: "agg_row list"

text \<open>\<open>agg.get(c, 0)\<close> on one row.\<close>

definition get_count :: "(string \<times> nat) list \<Rightarrow> string \<Rightarrow> nat" where
  "get_count cs c = (case map_of cs c of Some n \<Rightarrow> n | None \<Rightarrow> 0)"

text \<open>
  \<open>groupby([key, 'hour', 'status']).size().unstack(fill_value=0)\<close> followed by the three
  column assignments.
\<close>

definition hourly_counts :: "(canonical \<Rightarrow> string) \<Rightarrow> canonical list \<Rightarrow> hourly_table" where
  "hourly_counts key df_clean =
     (let statuses = sort (remdups (map status df_clean));
          index = sort (remdups (map (\<lambda>r. (key r, rec_hour r)) df_clean))
      in \<lparr>status_columns = statuses,
          table_rows =
            map (\<lambda>(e, h).
                  (let cs = map (\<lambda>s. (s, length (filter
                                (\<lambda>r. key r = e \<and> rec_hour r = h \<and> status r = s) df_clean))) statuses;
                       tot = sum_list (map snd cs);
                       chg = get_count cs ''CHARGING''
                   in \<lparr>hour = h, occupancy_rate = true_div chg tot, entity = e, counts = cs,
                        total = tot, charging = chg\<rparr>))
              index\<rparr>)"

text \<open>\<open>value_counts\<close> and \<open>status_counts.get(s, 0)\<close>.\<close>

definition value_counts :: "string list \<Rightarrow> (string \<times> nat) list" where
  "value_counts xs = map (\<lambda>s. (s, count_list xs s)) (remdups xs)"

record report =
  total_records :: nat
  unknown_count :: nat
  unknown_pct :: rat
  decision :: string

record prep_output =
  status_summary :: "(string \<times> nat) list"
  occupancy_station_hourly :: hourly_table
  occupancy_evse_hourly :: hourly_table
  flattened_sample :: "canonical list"
  unknown_analysis :: report

text \<open>\<open>xs[:n]\<close> of Python.\<close>

definition slice_to :: "int \<Rightarrow> 'a list \<Rightarrow> 'a list" where
  "slice_to n xs = (if 0 \<le> n then take (nat n) xs else take (length xs - nat (- n)) xs)"

text \<open>
  \<open>main\<close> of data\_prep. Its argument is the content of the Avro files found under the input
  directory, in path order. A frame built from no record at all has no column, so the first
  \<open>dropna\<close> raises; \<open>unknown_count / total\<close> divides two Python integers.
\<close>

definition data_prep_main :: "raw_record option list list \<Rightarrow> int \<Rightarrow> error + prep_output" where
  "data_prep_main avro_files sample_size =
     (if avro_files = [] then Inl (SystemExit 1)
      else
        (let sample_files = slice_to sample_size avro_files;
             all_recs = concat (map parse_avro_file sample_files)
         in if all_recs = [] then Inl (KeyError ''['station_id', 'evse_id', 'status', 'timestamp']'')
            else
              (let df = List.map_filter normalize all_recs;
                   status_counts = value_counts (map status df);
                   n = length df;
                   unknown = get_count status_counts ''UNKNOWN''
               in if n = 0 then Inl ZeroDivisionError
                  else
                    (let pct = of_nat unknown / of_nat n * 100;
                         df_clean = filter (\<lambda>r. status r \<noteq> ''UNKNOWN'') df
                     in Inr \<lparr>status_summary = status_counts,
                             occupancy_station_hourly = hourly_counts rec_station_id df_clean,
                             occupancy_evse_hourly = hourly_counts rec_evse_id df_clean,
                             flattened_sample = df_clean,
                             unknown_analysis =
                               \<lparr>total_records = n, unknown_count = unknown, unknown_pct = pct,
                                decision = ''Excluded 'UNKNOWN' status from occupancy metrics.''\<rparr>\<rparr>))))"

section \<open>The two analytics entry points\<close>

text \<open>\<open>reset_index\<close> of the two frames read back, and \<open>evse_df['charging_count'] = evse_df['charging']\<close>.\<close>

definition station_frame :: "hourly_table \<Rightarrow> station_hour list" where
  "station_frame t =
     map (\<lambda>row. \<lparr>hour = hour row, occupancy_rate = occupancy_rate row, station_id = entity row\<rparr>)
       (table_rows t)"

definition evse_frame :: "hourly_table \<Rightarrow> evse_hour list" where
  "evse_frame t =
     map (\<lambda>row. \<lparr>hour = hour row, evse_id = entity row, charging_count = int (charging row)\<rparr>)
       (table_rows t)"

record outputs =
  daily_utilization_trends :: "(string \<times> int \<times> float64) list"
  peak_periods_station :: "station_hour list"
  global_peak_hour_of_day :: "(int \<times> float64) list"
  capacity_pressure_station :: "(string \<times> nat \<times> nat \<times> float64) list"
  reliability_evse_downtime :: "(string \<times> nat \<times> nat) list"

text \<open>
  A call of a module-level function looks its name up in the globals of the module when
  the call is reached. The globals are listed with the functions they are bound to, for
  the functions of the type called at this place; every other global of either module has
  another name (\<open>pd\<close>, the four other \<open>compute_\<close> functions and \<open>main\<close>).
\<close>

type_synonym pressure_function =
  "station_hour list \<Rightarrow> rat \<Rightarrow> (string \<times> nat \<times> nat \<times> float64) list"

definition compute_metrics_globals :: "(string \<times> pressure_function) list" where
  "compute_metrics_globals =
     [(''compute_capacity_pressure_messages'', compute_capacity_pressure_messages)]"

definition compute_metrics_refined_globals :: "(string \<times> pressure_function) list" where
  "compute_metrics_refined_globals = [(''compute_capacity_pressure'', compute_capacity_pressure)]"

definition load_global :: "(string \<times> 'f) list \<Rightarrow> string \<Rightarrow> error + 'f" where
  "load_global globals name =
     (case map_of globals name of Some f \<Rightarrow> Inr f | None \<Rightarrow> Inl (NameError name))"

text \<open>
  \<open>main\<close> of compute\_metrics, given the two frames written by data\_prep. The five
  \<open>to_csv\<close> calls follow the five computations, so the files are written exactly when the
  result is \<open>Inr\<close>.
\<close>

definition compute_metrics_main :: "hourly_table \<Rightarrow> hourly_table \<Rightarrow> error + outputs" where
  "compute_metrics_main station_parquet evse_parquet =
     (let station_df = station_frame station_parquet;
          evse_df = evse_frame evse_parquet;
          daily_util = compute_utilization_trends station_df;
          peak_periods = compute_peak_periods station_df 5;
          global_peak = compute_global_peak_by_hour_of_day station_df
      in case load_global compute_metrics_globals ''compute_capacity_pressure'' of
           Inl e \<Rightarrow> Inl e
         | Inr f \<Rightarrow>
             (let capacity_pressure = f station_df (9 / 10);
                  reliability = compute_reliability_downtime evse_df 24
              in Inr \<lparr>daily_utilization_trends = daily_util, peak_periods_station = peak_periods,
                      global_peak_hour_of_day = global_peak,
                      capacity_pressure_station = capacity_pressure,
                      reliability_evse_downtime = reliability\<rparr>))"

text \<open>
  The refined ratio: \<open>station_df['AVAILABLE']\<close> raises on a frame without that column;
  \<open>dropna\<close> removes the rows whose refined ratio is missing.
\<close>

definition get_column :: "hourly_table \<Rightarrow> string \<Rightarrow> error + nat list" where
  "get_column t c =
     (if c \<in> set (status_columns t)
      then Inr (map (\<lambda>row. get_count (counts row) c) (table_rows t))
      else Inl (KeyError c))"

definition station_ref :: "hourly_table \<Rightarrow> error + station_hour list" where
  "station_ref station_parquet =
     (case get_column station_parquet ''AVAILABLE'' of
        Inl e \<Rightarrow> Inl e
      | Inr available_msgs \<Rightarrow>
          Inr (map (\<lambda>(row, refined). \<lparr>hour = hour row, occupancy_rate = refined, station_id = entity row\<rparr>)
                 (filter (\<lambda>(row, refined). refined \<noteq> NaN)
                    (map (\<lambda>(row, available). (row, true_div (charging row) (charging row + available)))
                       (zip (table_rows station_parquet) available_msgs)))))"

definition compute_metrics_refined_main :: "hourly_table \<Rightarrow> hourly_table \<Rightarrow> error + outputs" where
  "compute_metrics_refined_main station_parquet evse_parquet =
     (case station_ref station_parquet of
        Inl e \<Rightarrow> Inl e
      | Inr ref \<Rightarrow>
          (let evse_df = evse_frame evse_parquet;
               daily_util = compute_utilization_trends ref;
               peak_periods = compute_peak_periods ref 5;
               global_peak = compute_global_peak_by_hour_of_day ref
           in case load_global compute_metrics_refined_globals ''compute_capacity_pressure'' of
                Inl e \<Rightarrow> Inl e
              | Inr f \<Rightarrow>
                  (let capacity_pressure = f ref (9 / 10);
                       reliability = compute_reliability_downtime evse_df 24
                   in Inr \<lparr>daily_utilization_trends = daily_util, peak_periods_station = peak_periods,
                           global_peak_hour_of_day = global_peak,
                           capacity_pressure_station = capacity_pressure,
                           reliability_evse_downtime = reliability\<rparr>)))"

section \<open>Example inputs\<close>

text \<open>
  The bucket of station \<open>S1\<close> at 2024-01-01T08:00Z with \<open>c\<close> \<open>CHARGING\<close>, \<open>a\<close>
  \<open>AVAILABLE\<close> and \<open>ou\<close> \<open>OUTOFORDER\<close> records.
\<close>

definition s1_bucket :: "nat \<Rightarrow> nat \<Rightarrow> nat \<Rightarrow> canonical list" where
  "s1_bucket c a ou =
     map (\<lambda>st. \<lparr>rec_station_id = ''S1'', rec_evse_id = ''E1'', status = st, timestamp = 1704096000\<rparr>)
       (replicate c ''CHARGING'' @ replicate a ''AVAILABLE'' @ replicate ou ''OUTOFORDER'')"

text \<open>
  Avro dumps: a sample with an undecodable entry, a null field, an unreadable timestamp and
  an \<open>UNKNOWN\<close> record; dumps whose records are all \<open>UNKNOWN\<close>, or all incomplete; and
  dumps without \<open>AVAILABLE\<close>, or without \<open>CHARGING\<close>, records.
\<close>

definition sample_files :: "raw_record option list list" where
  "sample_files =
    [[Some \<lparr>raw_station_id = Some ''S1'', raw_evse_id = Some ''E1'', raw_status = Some ''CHARGING'',
            raw_timestamp = Some (Instant 1704096100)\<rparr>,
      None,
      Some \<lparr>raw_station_id = Some ''S1'', raw_evse_id = Some ''E2'', raw_status = Some ''AVAILABLE'',
            raw_timestamp = Some (Instant 1704097000)\<rparr>,
      Some \<lparr>raw_station_id = Some ''S1'', raw_evse_id = Some ''E1'', raw_status = Some ''UNKNOWN'',
            raw_timestamp = Some (Instant 1704097100)\<rparr>],
     [Some \<lparr>raw_station_id = Some ''S2'', raw_evse_id = None, raw_status = Some ''CHARGING'',
            raw_timestamp = Some (Instant 1704097200)\<rparr>,
      Some \<lparr>raw_station_id = Some ''S2'', raw_evse_id = Some ''E3'', raw_status = Some ''AVAILABLE'',
            raw_timestamp = Some NaT\<rparr>,
      Some \<lparr>raw_station_id = Some ''S2'', raw_evse_id = Some ''E3'', raw_status = Some ''OUTOFORDER'',
            raw_timestamp = Some (Instant 1704100000)\<rparr>]]"

definition unknown_only_files :: "raw_record option list list" where
  "unknown_only_files =
    [[Some \<lparr>raw_station_id = Some ''S1'', raw_evse_id = Some ''E1'', raw_status = Some ''UNKNOWN'',
            raw_timestamp = Some (Instant 1704096000)\<rparr>]]"

definition null_field_files :: "raw_record option list list" where
  "null_field_files =
    [[Some \<lparr>raw_station_id = Some ''S1'', raw_evse_id = Some ''E1'', raw_status = None,
            raw_timestamp = Some (Instant 1704096000)\<rparr>,
      Some \<lparr>raw_station_id = Some ''S1'', raw_evse_id = Some ''E1'', raw_status = Some ''CHARGING'',
            raw_timestamp = Some NaT\<rparr>]]"

definition charging_only_files :: "raw_record option list list" where
  "charging_only_files =
    [[Some \<lparr>raw_station_id = Some ''S1'', raw_evse_id = Some ''E1'', raw_status = Some ''CHARGING'',
            raw_timestamp = Some (Instant 1704096000)\<rparr>,
      Some \<lparr>raw_station_id = Some ''S1'', raw_evse_id = Some ''E2'', raw_status = Some ''OUTOFORDER'',
            raw_timestamp = Some (Instant 1704096060)\<rparr>]]"

definition available_only_files :: "raw_record option list list" where
  "available_only_files =
    [[Some \<lparr>raw_station_id = Some ''S1'', raw_evse_id = Some ''E1'', raw_status = Some ''AVAILABLE'',
            raw_timestamp = Some (Instant 1704096000)\<rparr>,
      Some \<lparr>raw_station_id = Some ''S1'', raw_evse_id = Some ''E2'', raw_status = Some ''OUTOFORDER'',
            raw_timestamp = Some (Instant 1704099600)\<rparr>]]"

section \<open>Properties\<close>

subsection \<open>Run ids and the runs table\<close>

lemma length_shift1: "length (shift1 xs) = length xs"
  by (cases xs) (simp_all add: shift1_def)

lemma length_ne_shift: "length (ne_shift bs) = length bs"
  by (simp add: ne_shift_def length_shift1)

lemma nth_shift1: "i < length xs \<Longrightarrow> shift1 xs ! i = (if i = 0 then None else Some (xs ! (i - 1)))"
proof (cases xs)
  case Nil
  assume "i < length xs" with Nil show ?thesis by simp
next
  case (Cons a as)
  assume i: "i < length xs"
  show ?thesis
  proof (cases i)
    case 0
    then show ?thesis using Cons by (simp add: shift1_def)
  next
    case (Suc j)
    have lb: "length (butlast (a # as)) = length as" by (simp del: butlast.simps)
    from i Cons Suc have "j < length (butlast (a # as))" by (simp only: lb) simp
    then have "map Some (butlast (a # as)) ! j = Some ((a # as) ! j)"
      by (simp del: butlast.simps add: nth_butlast)
    then show ?thesis using Cons Suc by (simp del: butlast.simps add: shift1_def)
  qed
qed

lemma nth_ne_shift:
  "i < length bs \<Longrightarrow> ne_shift bs ! i = (i = 0 \<or> bs ! i \<noteq> bs ! (i - 1))"
  by (auto simp add: ne_shift_def length_shift1 nth_shift1)

lemma length_cumsum: "length (cumsum acc bs) = length bs"
  by (induction bs arbitrary: acc) simp_all

lemma nth_cumsum_0: "bs \<noteq> [] \<Longrightarrow> cumsum acc bs ! 0 = acc + (if bs ! 0 then 1 else 0)"
  by (cases bs) simp_all

lemma nth_cumsum_Suc:
  "Suc i < length bs \<Longrightarrow> cumsum acc bs ! Suc i = cumsum acc bs ! i + (if bs ! Suc i then 1 else 0)"
proof (induction bs arbitrary: acc i)
  case Nil
  then show ?case by simp
next
  case (Cons b bs)
  show ?case
  proof (cases i)
    case 0
    with Cons.prems show ?thesis by (cases bs) simp_all
  next
    case (Suc j)
    with Cons.prems have "Suc j < length bs" by simp
    from Cons.IH [OF this] show ?thesis using Suc by simp
  qed
qed

lemma length_is_zero_col: "length (is_zero_col grp) = length grp"
  by (simp add: is_zero_col_def)

lemma length_run_col: "length (run_col grp) = length grp"
  by (simp add: run_col_def length_cumsum length_ne_shift length_is_zero_col)

lemma nth_is_zero_col: "i < length grp \<Longrightarrow> is_zero_col grp ! i = (charging_count (grp ! i) = 0)"
  by (simp add: is_zero_col_def)

lemma run_col_0: "grp \<noteq> [] \<Longrightarrow> run_col grp ! 0 = 1"
proof -
  assume "grp \<noteq> []"
  then have ne: "ne_shift (is_zero_col grp) \<noteq> []" and len: "0 < length (is_zero_col grp)"
    using length_ne_shift [of "is_zero_col grp"] by (auto simp add: length_is_zero_col)
  from len have "ne_shift (is_zero_col grp) ! 0" by (simp add: nth_ne_shift)
  with ne show ?thesis by (simp add: run_col_def nth_cumsum_0)
qed

lemma run_col_Suc:
  assumes "Suc i < length grp"
  shows "run_col grp ! Suc i =
    run_col grp ! i + (if is_zero_col grp ! Suc i \<noteq> is_zero_col grp ! i then 1 else 0)"
proof -
  from assms have "Suc i < length (ne_shift (is_zero_col grp))"
    by (simp add: length_ne_shift length_is_zero_col)
  from nth_cumsum_Suc [OF this, of 0] assms show ?thesis
    by (simp add: run_col_def nth_ne_shift length_is_zero_col)
qed

lemma run_col_mono_step: "Suc i < length grp \<Longrightarrow> run_col grp ! i \<le> run_col grp ! Suc i"
  by (simp add: run_col_Suc)

lemma run_col_mono: "i \<le> j \<Longrightarrow> j < length grp \<Longrightarrow> run_col grp ! i \<le> run_col grp ! j"
proof (induction j)
  case 0
  then show ?case by simp
next
  case (Suc j)
  show ?case
  proof (cases "i = Suc j")
    case True
    then show ?thesis by simp
  next
    case False
    with Suc.prems have "i \<le> j" "j < length grp" by simp_all
    with Suc.IH have "run_col grp ! i \<le> run_col grp ! j" by simp
    also have "\<dots> \<le> run_col grp ! Suc j" using Suc.prems by (simp add: run_col_mono_step)
    finally show ?thesis .
  qed
qed

lemma run_col_eq_iff:
  "i \<le> j \<Longrightarrow> j < length grp \<Longrightarrow>
   (run_col grp ! i = run_col grp ! j) =
   (\<forall>k. i < k \<and> k \<le> j \<longrightarrow> is_zero_col grp ! k = is_zero_col grp ! i)"
proof (induction j)
  case 0
  then show ?case by simp
next
  case (Suc j)
  show ?case
  proof (cases "i = Suc j")
    case True
    then show ?thesis by auto
  next
    case False
    with Suc.prems have ij: "i \<le> j" and j: "j < length grp" by simp_all
    note IH = Suc.IH [OF ij j]
    have step: "run_col grp ! Suc j =
        run_col grp ! j + (if is_zero_col grp ! Suc j \<noteq> is_zero_col grp ! j then 1 else 0)"
      using Suc.prems by (simp add: run_col_Suc)
    have mono: "run_col grp ! i \<le> run_col grp ! j" using ij j by (rule run_col_mono)
    show ?thesis
    proof
      assume eq: "run_col grp ! i = run_col grp ! Suc j"
      with step mono have e1: "run_col grp ! i = run_col grp ! j"
        and e2: "is_zero_col grp ! Suc j = is_zero_col grp ! j"
        by (auto split: if_splits)
      from e1 IH have all: "\<forall>k. i < k \<and> k \<le> j \<longrightarrow> is_zero_col grp ! k = is_zero_col grp ! i"
        by simp
      have "is_zero_col grp ! j = is_zero_col grp ! i"
      proof (cases "i = j")
        case True then show ?thesis by simp
      next
        case False with ij all show ?thesis by simp
      qed
      with e2 have "is_zero_col grp ! Suc j = is_zero_col grp ! i" by simp
      with all show "\<forall>k. i < k \<and> k \<le> Suc j \<longrightarrow> is_zero_col grp ! k = is_zero_col grp ! i"
        by (auto simp add: le_Suc_eq)
    next
      assume all: "\<forall>k. i < k \<and> k \<le> Suc j \<longrightarrow> is_zero_col grp ! k = is_zero_col grp ! i"
      then have "\<forall>k. i < k \<and> k \<le> j \<longrightarrow> is_zero_col grp ! k = is_zero_col grp ! i" by simp
      with IH have e1: "run_col grp ! i = run_col grp ! j" by simp
      have "is_zero_col grp ! j = is_zero_col grp ! i"
      proof (cases "i = j")
        case True then show ?thesis by simp
      next
        case False with ij all show ?thesis by simp
      qed
      moreover from all ij have "is_zero_col grp ! Suc j = is_zero_col grp ! i" by simp
      ultimately show "run_col grp ! i = run_col grp ! Suc j" using step e1 by simp
    qed
  qed
qed

lemma length_tagged: "length (tagged grp) = length grp"
  by (simp add: tagged_def length_is_zero_col length_run_col)

lemma nth_tagged: "i < length grp \<Longrightarrow> tagged grp ! i = (grp ! i, is_zero_col grp ! i, run_col grp ! i)"
  by (simp add: tagged_def length_is_zero_col length_run_col)

lemma in_tagged:
  "row \<in> set (tagged grp) \<longleftrightarrow> (\<exists>i < length grp. row = (grp ! i, is_zero_col grp ! i, run_col grp ! i))"
  using length_tagged [of grp] nth_tagged [of _ grp]
  by (auto simp add: in_set_conv_nth) 

lemma same_run_same_flag:
  assumes "i < length grp" "j < length grp" "run_col grp ! i = run_col grp ! j"
  shows "is_zero_col grp ! i = is_zero_col grp ! j"
proof -
  have aux: "is_zero_col grp ! b = is_zero_col grp ! a"
    if "a \<le> b" "b < length grp" "run_col grp ! a = run_col grp ! b" for a b
  proof (cases "a = b")
    case True then show ?thesis by simp
  next
    case False
    with that run_col_eq_iff [of a b grp] show ?thesis by simp
  qed
  show ?thesis
  proof (cases "i \<le> j")
    case True with assms aux [of i j] show ?thesis by simp
  next
    case False with assms aux [of j i] show ?thesis by simp
  qed
qed

lemma runs_table_alt:
  "runs_table grp =
     map (\<lambda>k. (k, evse_id (fst (hd (filter (\<lambda>row. snd (snd row) = k) (tagged grp)))),
               fst (snd (hd (filter (\<lambda>row. snd (snd row) = k) (tagged grp)))),
               length (filter (\<lambda>row. snd (snd row) = k) (tagged grp))))
       (sort (remdups (run_col grp)))"
proof -
  have "map snd (map snd (tagged grp)) = run_col grp"
    by (simp only: tagged_def map_snd_zip length_is_zero_col length_run_col length_zip min.idem)
  then have "map (\<lambda>row. snd (snd row)) (tagged grp) = run_col grp"
    by (simp add: comp_def)
  then show ?thesis
    by (simp add: runs_table_def groupby_def tagged_def [symmetric] comp_def)
qed

lemma runs_table_entry:
  assumes "(k, e, z, c) \<in> set (runs_table grp)"
  shows "k \<in> set (run_col grp)"
    and "c = length (filter (\<lambda>row. snd (snd row) = k) (tagged grp))"
    and "\<forall>j < length grp. run_col grp ! j = k \<longrightarrow> is_zero_col grp ! j = z"
    and "0 < c"
proof -
  let ?rows = "filter (\<lambda>row. snd (snd row) = k) (tagged grp)"
  from assms have k: "k \<in> set (run_col grp)" and c: "c = length ?rows"
    and z: "z = fst (snd (hd ?rows))"
    by (auto simp add: runs_table_alt)
  show "k \<in> set (run_col grp)" by (rule k)
  show "c = length ?rows" by (rule c)
  from k obtain i where i: "i < length grp" "run_col grp ! i = k"
    by (auto simp add: in_set_conv_nth length_run_col)
  then have "(grp ! i, is_zero_col grp ! i, run_col grp ! i) \<in> set ?rows"
    by (auto simp add: in_tagged)
  then have ne: "?rows \<noteq> []" by (metis empty_iff list.set(1))
  then show "0 < c" using c by simp
  from ne have "hd ?rows \<in> set ?rows" by (rule hd_in_set)
  then have h1: "hd ?rows \<in> set (tagged grp)" and h2: "snd (snd (hd ?rows)) = k"
    by simp_all
  from h1 obtain m where m: "m < length grp"
    and hm: "hd ?rows = (grp ! m, is_zero_col grp ! m, run_col grp ! m)"
    unfolding in_tagged by blast
  from h2 hm have km: "run_col grp ! m = k" by simp
  from z hm have zm: "z = is_zero_col grp ! m" by simp
  show "\<forall>j < length grp. run_col grp ! j = k \<longrightarrow> is_zero_col grp ! j = z"
  proof (intro allI impI)
    fix j assume j: "j < length grp" "run_col grp ! j = k"
    with km have "run_col grp ! j = run_col grp ! m" by simp
    from same_run_same_flag [OF j(1) m this] zm show "is_zero_col grp ! j = z" by simp
  qed
qed

lemma distinct_runs_table: "distinct (map fst (runs_table grp))"
proof -
  have "map fst (runs_table grp) = sort (remdups (run_col grp))"
    by (simp add: runs_table_alt comp_def)
  then show ?thesis by simp
qed

lemma length_filter_mem_distinct:
  "distinct ks \<Longrightarrow>
   length (filter (\<lambda>x. f x \<in> set ks) xs) = sum_list (map (\<lambda>k. length (filter (\<lambda>x. f x = k) xs)) ks)"
proof (induction ks)
  case Nil
  then show ?case by simp
next
  case (Cons k ks)
  then have d: "k \<notin> set ks" "distinct ks" by simp_all
  have "length (filter (\<lambda>x. f x \<in> set (k # ks)) xs) =
        length (filter (\<lambda>x. f x = k) xs) + length (filter (\<lambda>x. f x \<in> set ks) xs)"
    using d(1) by (induction xs) auto
  with Cons.IH [OF d(2)] show ?case by simp
qed

lemma downtime_runs_entry:
  "(k, e, z, c) \<in> set (downtime_runs gap grp) \<longleftrightarrow>
     (k, e, z, c) \<in> set (runs_table grp) \<and> z \<and> gap \<le> int c"
  by (auto simp add: downtime_runs_def)

lemma distinct_downtime_runs: "distinct (map fst (downtime_runs gap grp))"
  unfolding downtime_runs_def by (rule distinct_map_filter) (rule distinct_runs_table)

lemma zero_rows_filter:
  "filter (\<lambda>(r, z, k). z \<and> k \<in> set (map fst (downtime_runs gap grp))) (tagged grp) =
   filter (\<lambda>row. snd (snd row) \<in> set (map fst (downtime_runs gap grp))) (tagged grp)"
proof (rule filter_cong [OF refl])
  fix row assume "row \<in> set (tagged grp)"
  then obtain i where i: "i < length grp"
    and row: "row = (grp ! i, is_zero_col grp ! i, run_col grp ! i)"
    unfolding in_tagged by blast
  have "is_zero_col grp ! i" if "run_col grp ! i \<in> set (map fst (downtime_runs gap grp))"
  proof -
    from that obtain e z c where d: "(run_col grp ! i, e, z, c) \<in> set (downtime_runs gap grp)"
      by auto
    then have rt: "(run_col grp ! i, e, z, c) \<in> set (runs_table grp)" and z: z
      using downtime_runs_entry by blast+
    from runs_table_entry(3) [OF rt] i have "is_zero_col grp ! i = z" by simp
    with z show ?thesis by simp
  qed
  then show "(case row of (r, z, k) \<Rightarrow> z \<and> k \<in> set (map fst (downtime_runs gap grp))) =
             (snd (snd row) \<in> set (map fst (downtime_runs gap grp)))"
    unfolding row by auto
qed

lemma length_zero_rows:
  "length (zero_rows_of_downtime_runs gap grp) =
   sum_list (map (\<lambda>(k, e, z, c). c) (downtime_runs gap grp))"
proof -
  let ?D = "downtime_runs gap grp"
  have "length (zero_rows_of_downtime_runs gap grp) =
        length (filter (\<lambda>row. snd (snd row) \<in> set (map fst ?D)) (tagged grp))"
    by (simp only: zero_rows_of_downtime_runs_def tagged_def [symmetric] zero_rows_filter length_map)
  also have "\<dots> = sum_list (map (\<lambda>k. length (filter (\<lambda>row. snd (snd row) = k) (tagged grp))) (map fst ?D))"
    by (rule length_filter_mem_distinct) (rule distinct_downtime_runs)
  also have "\<dots> = sum_list (map (\<lambda>(k, e, z, c). c) ?D)"
  proof -
    have "map (\<lambda>k. length (filter (\<lambda>row. snd (snd row) = k) (tagged grp))) (map fst ?D) =
          map (\<lambda>(k, e, z, c). c) ?D"
      unfolding map_map
    proof (rule map_cong [OF refl])
      fix x assume x: "x \<in> set ?D"
      obtain k e z c where xe: "x = (k, e, z, c)" by (cases x) auto
      with x have "(k, e, z, c) \<in> set (runs_table grp)" using downtime_runs_entry by blast
      from runs_table_entry(2) [OF this] xe
      show "((\<lambda>k. length (filter (\<lambda>row. snd (snd row) = k) (tagged grp))) \<circ> fst) x =
            (case x of (k, e, z, c) \<Rightarrow> c)" by simp
    qed
    then show ?thesis by (simp only:)
  qed
  finally show ?thesis .
qed

lemma zero_rows_subset:
  assumes "r \<in> set (zero_rows_of_downtime_runs gap grp)"
  shows "r \<in> set grp" and "charging_count r = 0"
proof -
  from assms obtain z k where m: "(r, z, k) \<in> set (tagged grp)" and z: z
    by (auto simp add: zero_rows_of_downtime_runs_def tagged_def [symmetric])
  then obtain i where i: "i < length grp" "r = grp ! i" "z = is_zero_col grp ! i"
    unfolding in_tagged by blast
  then show "r \<in> set grp" by simp
  from i z show "charging_count r = 0" by (simp add: nth_is_zero_col)
qed

lemma remdups_replicate: "remdups (replicate n x) = (if n = 0 then [] else [x])"
  by (induction n) auto

lemma zip_replicate_both:
  "zip t (zip (replicate (length t) a) (replicate (length t) b)) = map (\<lambda>r. (r, a, b)) t"
  by (induction t) simp_all

lemma cumsum_replicate_False: "cumsum acc (replicate n False) = replicate n acc"
  by (induction n) simp_all

lemma ne_shift_replicate_True: "ne_shift (replicate (Suc n) True) = True # replicate n False"
proof (rule nth_equalityI)
  show "length (ne_shift (replicate (Suc n) True)) = length (True # replicate n False)"
    by (simp add: length_ne_shift)
next
  fix i assume "i < length (ne_shift (replicate (Suc n) True))"
  then have i: "i < Suc n" by (simp add: length_ne_shift)
  then have "ne_shift (replicate (Suc n) True) ! i = (i = 0)"
    by (simp add: nth_ne_shift del: replicate_Suc)
  also have "\<dots> = (True # replicate n False) ! i"
    using i by (cases i) simp_all
  finally show "ne_shift (replicate (Suc n) True) ! i = (True # replicate n False) ! i" .
qed

lemma is_zero_col_all_zero:
  "\<forall>r \<in> set t. charging_count r = 0 \<Longrightarrow> is_zero_col t = replicate (length t) True"
  by (simp add: is_zero_col_def map_replicate_const [symmetric] cong: map_cong)

lemma run_col_all_zero:
  assumes "\<forall>r \<in> set t. charging_count r = 0"
  shows "run_col t = replicate (length t) 1"
proof (cases t)
  case Nil
  then show ?thesis by (simp add: run_col_def is_zero_col_def ne_shift_def shift1_def)
next
  case (Cons a as)
  then have "length t = Suc (length as)" by simp
  with is_zero_col_all_zero [OF assms] have "is_zero_col t = replicate (Suc (length as)) True"
    by simp
  then have "run_col t = cumsum 0 (True # replicate (length as) False)"
    by (simp only: run_col_def ne_shift_replicate_True)
  also have "\<dots> = replicate (Suc (length as)) 1"
    by (simp add: cumsum_replicate_False)
  finally show ?thesis using Cons by simp
qed

lemma runs_table_all_zero:
  assumes z: "\<forall>r \<in> set t. charging_count r = 0" and ne: "t \<noteq> []"
  shows "runs_table t = [(1, evse_id (hd t), True, length t)]"
proof -
  have tg: "tagged t = map (\<lambda>r. (r, True, 1)) t"
    by (simp only: tagged_def is_zero_col_all_zero [OF z] run_col_all_zero [OF z]
        zip_replicate_both)
  have keys: "sort (remdups (run_col t)) = [1]"
    using ne by (simp add: run_col_all_zero [OF z] remdups_replicate)
  have flt: "filter (\<lambda>row. snd (snd row) = 1) (tagged t) = tagged t"
    by (simp add: tg filter_map comp_def)
  show ?thesis
    using ne by (simp add: runs_table_alt keys flt) (simp add: tg hd_map)
qed

lemma downtime_of_group_all_zero:
  assumes z: "\<forall>r \<in> set t. charging_count r = 0" and ne: "t \<noteq> []"
    and gap: "gap \<le> int (length t)"
  shows "downtime_of_group gap t = (1, length t)"
    and "runs_table (sorted_group t) = [(1, evse_id (hd (sorted_group t)), True, length t)]"
proof -
  let ?s = "sorted_group t"
  have sz: "\<forall>r \<in> set ?s. charging_count r = 0" using z by (simp add: sorted_group_def)
  have sne: "?s \<noteq> []" using ne by (metis length_sort sorted_group_def length_0_conv)
  have len: "length ?s = length t" by (simp add: sorted_group_def)
  from runs_table_all_zero [OF sz sne] len
  show rt: "runs_table ?s = [(1, evse_id (hd ?s), True, length t)]" by simp
  then show "downtime_of_group gap t = (1, length t)"
    using gap by (simp add: downtime_of_group_def downtime_runs_def)
qed

lemma groupby_single:
  assumes "\<forall>r \<in> set t. f r = e" and "t \<noteq> []"
  shows "groupby f t = [(e, t)]"
proof -
  from assms(1) have m: "map f t = replicate (length t) e"
    by (simp add: map_replicate_const [symmetric] cong: map_cong)
  from assms(2) have "sort (remdups (map f t)) = [e]"
    by (simp add: m remdups_replicate)
  moreover from assms(1) have "filter (\<lambda>r. f r = e) t = t" by simp
  ultimately show ?thesis by (simp add: groupby_def)
qed

lemma compute_reliability_downtime_entry:
  "(e, res) \<in> set (compute_reliability_downtime df gap) \<longleftrightarrow>
     e \<in> set (map evse_id df) \<and> res = downtime_of_group gap (filter (\<lambda>r. evse_id r = e) df)"
  by (auto simp add: compute_reliability_downtime_def groupby_def)

subsection \<open>Peak periods\<close>

lemma filter_groupby_head:
  "filter (\<lambda>r. f r = e) (groupby_head f n seen rs) =
   take (n - length (filter (\<lambda>s. f s = e) seen)) (filter (\<lambda>r. f r = e) rs)"
proof (induction rs arbitrary: seen)
  case Nil
  then show ?case by simp
next
  case (Cons r rs)
  show ?case
  proof (cases "f r = e")
    case True
    let ?c = "length (filter (\<lambda>s. f s = e) seen)"
    show ?thesis
    proof (cases "?c < n")
      case True
      then obtain m where m: "n - ?c = Suc m" by (cases "n - ?c") auto
      then have "n - Suc ?c = m" by simp
      with True \<open>f r = e\<close> m show ?thesis by (simp add: Cons.IH)
    next
      case False
      with \<open>f r = e\<close> show ?thesis by (simp add: Cons.IH)
    qed
  next
    case False
    then show ?thesis by (simp add: Cons.IH)
  qed
qed

lemma filter_take_prefix:
  "filter P (take n xs) = take (length (filter P (take n xs))) (filter P xs)"
proof (induction xs arbitrary: n)
  case Nil
  then show ?case by simp
next
  case (Cons x xs)
  show ?case
  proof (cases n)
    case 0
    then show ?thesis by simp
  next
    case (Suc m)
    with Cons.IH [of m] show ?thesis by simp
  qed
qed

lemma mset_take_subset: "mset (take n xs) \<subseteq># mset xs"
proof -
  have "mset xs = mset (take n xs) + mset (drop n xs)"
    by (metis append_take_drop_id mset_append)
  then show ?thesis by simp
qed

lemma desc_key_inj: "desc_key a = desc_key b \<longleftrightarrow> a = b"
  by (cases a; cases b) simp_all

lemma desc_key_le: "desc_key a \<le> desc_key b \<Longrightarrow> rate_ge a b"
  by (cases a; cases b) (simp_all add: less_eq_prod_def)

lemma peak_periods_group:
  "filter (\<lambda>r. station_id r = e) (compute_peak_periods df top_n) =
   take top_n (sort_key (\<lambda>r. (station_id r, desc_key (occupancy_rate r)))
     (filter (\<lambda>r. station_id r = e) df))"
  by (simp add: compute_peak_periods_def sort_values_station_rate_def filter_groupby_head
      filter_sort)

lemma sorted_group_rate_desc:
  assumes "\<forall>r \<in> set xs. station_id r = e"
  shows "sorted_wrt (\<lambda>a b. rate_ge (occupancy_rate a) (occupancy_rate b))
           (sort_key (\<lambda>r. (station_id r, desc_key (occupancy_rate r))) xs)"
proof -
  let ?K = "\<lambda>r. (station_id r, desc_key (occupancy_rate r))"
  let ?S = "sort_key ?K xs"
  have "sorted (map ?K ?S)" by (rule sorted_sort_key)
  then have s: "sorted_wrt (\<lambda>a b. ?K a \<le> ?K b) ?S" by (simp add: sorted_map)
  show ?thesis
  proof (rule sorted_wrt_mono_rel [OF _ s])
    fix a b assume "a \<in> set ?S" "b \<in> set ?S" "?K a \<le> ?K b"
    with assms have "station_id a = e" "station_id b = e" "?K a \<le> ?K b" by simp_all
    then have "desc_key (occupancy_rate a) \<le> desc_key (occupancy_rate b)"
      by (simp add: less_eq_prod_def)
    then show "rate_ge (occupancy_rate a) (occupancy_rate b)" by (rule desc_key_le)
  qed
qed

lemma sorted_group_stable:
  assumes "\<forall>r \<in> set xs. station_id r = e"
  shows "filter (\<lambda>r. occupancy_rate r = v)
           (sort_key (\<lambda>r. (station_id r, desc_key (occupancy_rate r))) xs) =
         filter (\<lambda>r. occupancy_rate r = v) xs"
proof -
  let ?K = "\<lambda>r. (station_id r, desc_key (occupancy_rate r))"
  have eq: "(occupancy_rate r = v) = (?K r = (e, desc_key v))" if "r \<in> set xs" for r
    using that assms by (simp add: desc_key_inj)
  have "filter (\<lambda>r. occupancy_rate r = v) (sort_key ?K xs) =
        filter (\<lambda>r. ?K r = (e, desc_key v)) (sort_key ?K xs)"
    by (rule filter_cong [OF refl]) (simp add: eq)
  also have "\<dots> = filter (\<lambda>r. ?K r = (e, desc_key v)) xs" by (rule sort_key_stable)
  also have "\<dots> = filter (\<lambda>r. occupancy_rate r = v) xs"
    by (rule filter_cong [OF refl]) (simp add: eq)
  finally show ?thesis .
qed

subsection \<open>Aggregation and the entry points\<close>

lemma get_count_map:
  "get_count (map (\<lambda>s. (s, g s)) ks) s = (if s \<in> set ks then g s else 0)"
  by (simp add: get_count_def map_of_map_restrict restrict_map_def)

lemma bucket_status_sum:
  assumes "distinct ks" and "status ` set df \<subseteq> set ks"
  shows "sum_list (map (\<lambda>s. length (filter (\<lambda>r. B r \<and> status r = s) df)) ks) =
         length (filter B df)"
proof -
  have "sum_list (map (\<lambda>s. length (filter (\<lambda>r. status r = s) (filter B df))) ks) =
        length (filter (\<lambda>r. status r \<in> set ks) (filter B df))"
    by (rule length_filter_mem_distinct [symmetric]) (rule assms(1))
  moreover have "filter (\<lambda>r. status r \<in> set ks) (filter B df) = filter B df"
    using assms(2) by (intro filter_True) auto
  ultimately show ?thesis by (simp add: conj_commute)
qed

lemma hourly_counts_columns:
  "status_columns (hourly_counts key df) = sort (remdups (map status df))"
  by (simp add: hourly_counts_def Let_def)

lemma hourly_counts_row:
  assumes "row \<in> set (table_rows (hourly_counts key df))"
  shows "map fst (counts row) = status_columns (hourly_counts key df)"
    and "get_count (counts row) s =
           length (filter (\<lambda>r. key r = entity row \<and> rec_hour r = hour row \<and> status r = s) df)"
    and "total row = sum_list (map snd (counts row))"
    and "total row = length (filter (\<lambda>r. key r = entity row \<and> rec_hour r = hour row) df)"
    and "charging row = get_count (counts row) ''CHARGING''"
    and "occupancy_rate row = true_div (charging row) (total row)"
    and "0 < total row"
    and "charging row \<le> total row"
proof -
  let ?ks = "sort (remdups (map status df))"
  define cnt where "cnt e h s = length (filter (\<lambda>r. key r = e \<and> rec_hour r = h \<and> status r = s) df)"
    for e h s
  from assms obtain e h where eh: "(e, h) \<in> set (map (\<lambda>r. (key r, rec_hour r)) df)"
    and row: "row = \<lparr>hour = h,
        occupancy_rate = true_div (get_count (map (\<lambda>s. (s, cnt e h s)) ?ks) ''CHARGING'')
           (sum_list (map snd (map (\<lambda>s. (s, cnt e h s)) ?ks))),
        entity = e, counts = map (\<lambda>s. (s, cnt e h s)) ?ks,
        total = sum_list (map snd (map (\<lambda>s. (s, cnt e h s)) ?ks)),
        charging = get_count (map (\<lambda>s. (s, cnt e h s)) ?ks) ''CHARGING''\<rparr>"
    by (auto simp add: hourly_counts_def Let_def cnt_def)
  have ent: "entity row = e" and hr: "hour row = h"
    and cs: "counts row = map (\<lambda>s. (s, cnt e h s)) ?ks"
    and tot: "total row = sum_list (map snd (counts row))"
    and chg: "charging row = get_count (counts row) ''CHARGING''"
    and rate: "occupancy_rate row = true_div (charging row) (total row)"
    by (simp_all add: row)
  show "map fst (counts row) = status_columns (hourly_counts key df)"
    by (simp add: cs hourly_counts_columns comp_def)
  have zero: "cnt e h s = 0" if "s \<notin> set ?ks" for s
  proof -
    from that have "\<forall>r \<in> set df. status r \<noteq> s" by auto
    then show ?thesis by (simp add: cnt_def)
  qed
  have gc: "get_count (counts row) s = cnt e h s" for s
    by (simp add: cs get_count_map zero)
  then show "get_count (counts row) s =
      length (filter (\<lambda>r. key r = entity row \<and> rec_hour r = hour row \<and> status r = s) df)"
    by (simp add: cnt_def ent hr)
  show "total row = sum_list (map snd (counts row))" by (rule tot)
  have "sum_list (map (\<lambda>s. length (filter (\<lambda>r. (key r = e \<and> rec_hour r = h) \<and> status r = s) df)) ?ks) =
        length (filter (\<lambda>r. key r = e \<and> rec_hour r = h) df)"
    by (rule bucket_status_sum) auto
  then show t2: "total row = length (filter (\<lambda>r. key r = entity row \<and> rec_hour r = hour row) df)"
    by (simp add: tot cs comp_def cnt_def ent hr conj_assoc)
  show "charging row = get_count (counts row) ''CHARGING''" by (rule chg)
  show "occupancy_rate row = true_div (charging row) (total row)" by (rule rate)
  from eh obtain r where "r \<in> set df" "key r = e" "rec_hour r = h" by auto
  then have "r \<in> set (filter (\<lambda>r. key r = e \<and> rec_hour r = h) df)" by simp
  then have "0 < length (filter (\<lambda>r. key r = e \<and> rec_hour r = h) df)"
    by (metis length_pos_if_in_set)
  then show "0 < total row" by (simp add: t2 ent hr)
  have "charging row = length (filter (\<lambda>r. status r = ''CHARGING'')
                          (filter (\<lambda>r. key r = e \<and> rec_hour r = h) df))"
    by (simp add: chg gc cnt_def conj_assoc)
  also have "\<dots> \<le> length (filter (\<lambda>r. key r = e \<and> rec_hour r = h) df)"
    by (rule length_filter_le)
  finally show "charging row \<le> total row" by (simp add: t2 ent hr)
qed

lemma data_prep_main_Inr:
  assumes "data_prep_main avro_files sample_size = Inr out"
  defines "df \<equiv> List.map_filter normalize
                  (concat (map parse_avro_file (slice_to sample_size avro_files)))"
  shows "avro_files \<noteq> []" and "df \<noteq> []"
    and "flattened_sample out = filter (\<lambda>r. status r \<noteq> ''UNKNOWN'') df"
    and "occupancy_station_hourly out = hourly_counts rec_station_id (flattened_sample out)"
    and "occupancy_evse_hourly out = hourly_counts rec_evse_id (flattened_sample out)"
    and "status_summary out = value_counts (map status df)"
    and "unknown_analysis out =
           \<lparr>total_records = length df,
            unknown_count = get_count (value_counts (map status df)) ''UNKNOWN'',
            unknown_pct = of_nat (get_count (value_counts (map status df)) ''UNKNOWN'') /
                          of_nat (length df) * 100,
            decision = ''Excluded 'UNKNOWN' status from occupancy metrics.''\<rparr>"
proof -
  from assms(1) have a: "avro_files \<noteq> []"
    by (auto simp add: data_prep_main_def split: if_splits)
  define recs where "recs = concat (map parse_avro_file (slice_to sample_size avro_files))"
  have dfr: "df = List.map_filter normalize recs" by (simp add: df_def recs_def)
  note main = assms(1) [unfolded data_prep_main_def Let_def, folded recs_def, folded dfr]
  from main a have b: "recs \<noteq> []" by (auto split: if_splits)
  from main a b have c: "df \<noteq> []" by (auto split: if_splits)
  from main a b c have out: "out =
      \<lparr>status_summary = value_counts (map status df),
       occupancy_station_hourly =
         hourly_counts rec_station_id (filter (\<lambda>r. status r \<noteq> ''UNKNOWN'') df),
       occupancy_evse_hourly =
         hourly_counts rec_evse_id (filter (\<lambda>r. status r \<noteq> ''UNKNOWN'') df),
       flattened_sample = filter (\<lambda>r. status r \<noteq> ''UNKNOWN'') df,
       unknown_analysis =
         \<lparr>total_records = length df,
          unknown_count = get_count (value_counts (map status df)) ''UNKNOWN'',
          unknown_pct = of_nat (get_count (value_counts (map status df)) ''UNKNOWN'') /
                        of_nat (length df) * 100,
          decision = ''Excluded 'UNKNOWN' status from occupancy metrics.''\<rparr>\<rparr>"
    by simp
  show "avro_files \<noteq> []" by (rule a)
  show "df \<noteq> []" by (rule c)
  show "flattened_sample out = filter (\<lambda>r. status r \<noteq> ''UNKNOWN'') df" by (simp add: out)
  show "occupancy_station_hourly out = hourly_counts rec_station_id (flattened_sample out)"
    by (simp add: out)
  show "occupancy_evse_hourly out = hourly_counts rec_evse_id (flattened_sample out)"
    by (simp add: out)
  show "status_summary out = value_counts (map status df)" by (simp add: out)
  show "unknown_analysis out =
           \<lparr>total_records = length df,
            unknown_count = get_count (value_counts (map status df)) ''UNKNOWN'',
            unknown_pct = of_nat (get_count (value_counts (map status df)) ''UNKNOWN'') /
                          of_nat (length df) * 100,
            decision = ''Excluded 'UNKNOWN' status from occupancy metrics.''\<rparr>"
    by (simp add: out)
qed

lemma get_count_value_counts:
  "get_count (value_counts xs) s = length (filter (\<lambda>x. x = s) xs)"
proof -
  have "count_list xs s = length (filter (\<lambda>x. x = s) xs)" by (induction xs) simp_all
  moreover have "s \<notin> set xs \<Longrightarrow> filter (\<lambda>x. x = s) xs = []"
    by (induction xs) auto
  ultimately show ?thesis by (simp add: value_counts_def get_count_map)
qed

lemma true_div_refined:
  "true_div c (c + a) = (if c + a = 0 then NaN else Val (of_nat c / of_nat (c + a)))"
  by (simp add: true_div_def)

lemma station_ref_rows:
  "map (\<lambda>(row, refined). \<lparr>hour = hour row, occupancy_rate = refined, station_id = entity row\<rparr>)
     (filter (\<lambda>(row, refined). refined \<noteq> NaN)
        (map (\<lambda>(row, available). (row, true_div (charging row) (charging row + available)))
           (zip rows (map (\<lambda>row. get_count (counts row) c) rows)))) =
   map (\<lambda>row. \<lparr>hour = hour row,
               occupancy_rate = Val (of_nat (charging row) /
                                     of_nat (charging row + get_count (counts row) c)),
               station_id = entity row\<rparr>)
     (filter (\<lambda>row. charging row + get_count (counts row) c \<noteq> 0) rows)"
  by (induction rows) (simp_all add: true_div_refined)

lemma station_ref_available:
  assumes "''AVAILABLE'' \<in> set (status_columns t)"
  shows "station_ref t =
     Inr (map (\<lambda>row. \<lparr>hour = hour row,
                 occupancy_rate = Val (of_nat (charging row) /
                                       of_nat (charging row + get_count (counts row) ''AVAILABLE'')),
                 station_id = entity row\<rparr>)
            (filter (\<lambda>row. charging row + get_count (counts row) ''AVAILABLE'' \<noteq> 0)
               (table_rows t)))"
  using assms by (simp add: station_ref_def get_column_def station_ref_rows)

lemma station_ref_no_available:
  "''AVAILABLE'' \<notin> set (status_columns t) \<Longrightarrow> station_ref t = Inl (KeyError ''AVAILABLE'')"
  by (simp add: station_ref_def get_column_def)

lemma refined_main_available:
  assumes "''AVAILABLE'' \<in> set (status_columns s)"
  shows "\<exists>res. compute_metrics_refined_main s e = Inr res"
proof -
  from station_ref_available [OF assms] obtain ref where "station_ref s = Inr ref" by blast
  then show ?thesis
    by (simp add: compute_metrics_refined_main_def load_global_def
        compute_metrics_refined_globals_def Let_def)
qed

lemma refined_main_no_available:
  assumes "''AVAILABLE'' \<notin> set (status_columns s)"
  shows "compute_metrics_refined_main s e = Inl (KeyError ''AVAILABLE'')"
  by (simp add: compute_metrics_refined_main_def station_ref_no_available [OF assms])

lemma hourly_counts_no_charging:
  assumes "''CHARGING'' \<notin> status ` set df" and "row \<in> set (table_rows (hourly_counts key df))"
  shows "charging row = 0"
proof -
  from assms(1) have "\<forall>r \<in> set df. status r \<noteq> ''CHARGING''" by (metis imageI)
  then show ?thesis
    by (simp add: hourly_counts_row(5) [OF assms(2)] hourly_counts_row(2) [OF assms(2)])
qed
subsection \<open>Theorems on the downtime detector\<close>

text \<open>
  Claim C1. The connector \<open>C1\<close> has 26 hourly rows, sorted by hour, with the charging
  counts \<open>0,0,0,5\<close>, 21 zeros and \<open>3\<close>. With \<open>gap_hours = 24\<close> its output row reports no
  downtime event; with \<open>gap_hours = 20\<close> it reports one event of 21 hours. The run id
  starts at 1 and goes up by one exactly where \<open>charging_count == 0\<close> changes from one row
  to the next, and the qualifying runs are the runs of \<open>runs\<close> that are zero runs of at
  least \<open>gap_hours\<close> rows.
\<close>

theorem downtime_scenario:
  "length scenario_table = 26 \<and> sorted (map hour scenario_table) \<and>
   map charging_count scenario_table = scenario_counts \<and>
   compute_reliability_downtime scenario_table 24 = [(''C1'', 0, 0)] \<and>
   compute_reliability_downtime scenario_table 20 = [(''C1'', 1, 21)] \<and>
   runs_table (sorted_group scenario_table) =
     [(1, ''C1'', True, 3), (2, ''C1'', False, 1), (3, ''C1'', True, 21), (4, ''C1'', False, 1)] \<and>
   (grp \<noteq> [] \<longrightarrow> run_col grp ! 0 = 1) \<and>
   (Suc i < length grp \<longrightarrow>
      run_col grp ! Suc i = run_col grp ! i +
        (if (charging_count (grp ! Suc i) = 0) = (charging_count (grp ! i) = 0) then 0 else 1)) \<and>
   ((k, e, z, c) \<in> set (downtime_runs gap_hours grp) \<longleftrightarrow>
      (k, e, z, c) \<in> set (runs_table grp) \<and> z \<and> gap_hours \<le> int c)"
proof -
  have "length scenario_table = 26" by code_simp
  moreover have "sorted (map hour scenario_table)" by code_simp
  moreover have "map charging_count scenario_table = scenario_counts" by code_simp
  moreover have "compute_reliability_downtime scenario_table 24 = [(''C1'', 0, 0)]" by code_simp
  moreover have "compute_reliability_downtime scenario_table 20 = [(''C1'', 1, 21)]" by code_simp
  moreover have "runs_table (sorted_group scenario_table) =
     [(1, ''C1'', True, 3), (2, ''C1'', False, 1), (3, ''C1'', True, 21), (4, ''C1'', False, 1)]"
    by code_simp
  moreover have "grp \<noteq> [] \<longrightarrow> run_col grp ! 0 = 1" by (simp add: run_col_0)
  moreover have "Suc i < length grp \<longrightarrow>
      run_col grp ! Suc i = run_col grp ! i +
        (if (charging_count (grp ! Suc i) = 0) = (charging_count (grp ! i) = 0) then 0 else 1)"
    by (simp add: run_col_Suc nth_is_zero_col)
  moreover have "(k, e, z, c) \<in> set (downtime_runs gap_hours grp) \<longleftrightarrow>
      (k, e, z, c) \<in> set (runs_table grp) \<and> z \<and> gap_hours \<le> int c"
    by (rule downtime_runs_entry)
  ultimately show ?thesis by (intro conjI)
qed

theorem downtime_scenario_witness:
  "scenario_table \<noteq> [] \<and> run_col scenario_table ! 0 = 1 \<and>
   Suc 2 < length scenario_table \<and> run_col scenario_table ! Suc 2 = run_col scenario_table ! 2 + 1 \<and>
   (3, ''C1'', True, 21) \<in> set (runs_table scenario_table) \<and>
   (3, ''C1'', True, 21) \<in> set (downtime_runs 20 scenario_table) \<and>
   (3, ''C1'', True, 21) \<notin> set (downtime_runs 24 scenario_table)"
proof -
  have ne: "scenario_table \<noteq> []" by code_simp
  have len: "Suc 2 < length scenario_table" by code_simp
  have c3: "charging_count (scenario_table ! Suc 2) = 5" by code_simp
  have c2: "charging_count (scenario_table ! 2) = 0" by code_simp
  have rt: "(3, ''C1'', True, 21) \<in> set (runs_table scenario_table)" by code_simp
  note t20 = downtime_scenario [of scenario_table 2 3 "''C1''" True 21 20]
  note t24 = downtime_scenario [of scenario_table 2 3 "''C1''" True 21 24]
  from t20 ne have "run_col scenario_table ! 0 = 1" by blast
  moreover from t20 len c3 c2
  have "run_col scenario_table ! Suc 2 = run_col scenario_table ! 2 + 1" by simp
  moreover from t20 rt have "(3, ''C1'', True, 21) \<in> set (downtime_runs 20 scenario_table)"
    by simp
  moreover from t24 have "(3, ''C1'', True, 21) \<notin> set (downtime_runs 24 scenario_table)"
    by simp
  ultimately show ?thesis using ne len rt by blast
qed

text \<open>
  Claim C6. Whatever the hours of the rows are, two zero-activity rows of a connector's
  row list \<open>grp\<close> (in \<open>compute_reliability_downtime\<close>, the rows of the connector sorted by
  hour) carry the same run id exactly when no row between them has a non-zero charging
  count. Adjacent zero rows are therefore always in one run, also across missing hours.
\<close>

theorem runs_follow_row_adjacency:
  assumes "i < j" and "j < length grp"
    and "charging_count (grp ! i) = 0" and "charging_count (grp ! j) = 0"
  shows "(run_col grp ! i = run_col grp ! j) =
         (\<forall>k. i < k \<and> k < j \<longrightarrow> charging_count (grp ! k) = 0)"
proof -
  from assms have ij: "i \<le> j" and zi: "is_zero_col grp ! i" and zj: "is_zero_col grp ! j"
    by (simp_all add: nth_is_zero_col)
  have "(run_col grp ! i = run_col grp ! j) =
        (\<forall>k. i < k \<and> k \<le> j \<longrightarrow> is_zero_col grp ! k = is_zero_col grp ! i)"
    using ij assms(2) by (rule run_col_eq_iff)
  also have "\<dots> = (\<forall>k. i < k \<and> k < j \<longrightarrow> is_zero_col grp ! k)"
    using zi zj by (auto simp add: le_less)
  also have "\<dots> = (\<forall>k. i < k \<and> k < j \<longrightarrow> charging_count (grp ! k) = 0)"
    using assms(2) by (auto simp add: nth_is_zero_col)
  finally show ?thesis .
qed

theorem runs_follow_row_adjacency_witness:
  "map hour (sorted_group (filter (\<lambda>r. evse_id r = ''C1'') gap_table)) =
     [0, 3600, 5 * 3600, 6 * 3600, 30 * 3600, 31 * 3600, 40 * 3600] \<and>
   map charging_count (sorted_group (filter (\<lambda>r. evse_id r = ''C1'') gap_table)) =
     [4, 0, 0, 0, 2, 0, 0] \<and>
   run_col (sorted_group (filter (\<lambda>r. evse_id r = ''C1'') gap_table)) ! 1 =
   run_col (sorted_group (filter (\<lambda>r. evse_id r = ''C1'') gap_table)) ! 3 \<and>
   run_col (sorted_group (filter (\<lambda>r. evse_id r = ''C1'') gap_table)) ! 3 \<noteq>
   run_col (sorted_group (filter (\<lambda>r. evse_id r = ''C1'') gap_table)) ! 5 \<and>
   compute_reliability_downtime gap_table 3 = [(''C1'', 1, 3), (''C2'', 0, 0)]"
proof -
  let ?rows = "filter (\<lambda>r. evse_id r = ''C1'') gap_table"
  let ?grp = "sorted_group ?rows"
  have h: "map hour ?grp = [0, 3600, 5 * 3600, 6 * 3600, 30 * 3600, 31 * 3600, 40 * 3600]"
    by code_simp
  have c: "map charging_count ?grp = [4, 0, 0, 0, 2, 0, 0]" by code_simp
  have out: "compute_reliability_downtime gap_table 3 = [(''C1'', 1, 3), (''C2'', 0, 0)]"
    by code_simp
  have len: "length ?grp = 7" by code_simp
  have nth: "charging_count (?grp ! k) = map charging_count ?grp ! k" if "k < 7" for k
    using that len by simp
  have c1: "charging_count (?grp ! 1) = 0" and c3: "charging_count (?grp ! 3) = 0"
    and c5: "charging_count (?grp ! 5) = 0" and c4: "charging_count (?grp ! 4) = 2"
    and c2: "charging_count (?grp ! 2) = 0"
    by (simp_all only: nth c) simp_all
  have between: "\<forall>k. (1::nat) < k \<and> k < 3 \<longrightarrow> charging_count (?grp ! k) = 0"
  proof (intro allI impI)
    fix k :: nat assume "1 < k \<and> k < 3"
    then have "k = 2" by arith
    with c2 show "charging_count (?grp ! k) = 0" by simp
  qed
  have l13: "(1::nat) < 3" and l35: "(3::nat) < 5" by simp_all
  have j3: "3 < length ?grp" and j5: "5 < length ?grp" by (simp_all add: len)
  from runs_follow_row_adjacency [OF l13 j3 c1 c3] between
  have r13: "run_col ?grp ! 1 = run_col ?grp ! 3" by simp
  have "\<not> (\<forall>k. (3::nat) < k \<and> k < 5 \<longrightarrow> charging_count (?grp ! k) = 0)"
    using c4 by (auto intro: exI [of _ 4])
  with runs_follow_row_adjacency [OF l35 j5 c3 c5]
  have r35: "run_col ?grp ! 3 \<noteq> run_col ?grp ! 5" by simp
  from h c r13 r35 out show ?thesis by (intro conjI)
qed

text \<open>
  Claim C7. Let connector \<open>e\<close> have at least one qualifying downtime run, with
  \<open>total_hours\<close> the downtime hours reported for it. Run the detector again, with the same
  \<open>gap_hours\<close>, on any frame that holds exactly the zero-activity rows of the qualifying runs
  of \<open>e\<close>: the connector then has exactly one run, a zero run of \<open>total_hours\<close> rows, and
  the output is the single row \<open>(e, 1, total_hours)\<close>.
\<close>

theorem downtime_idempotence:
  assumes "(e, n, total_hours) \<in> set (compute_reliability_downtime df gap_hours)"
    and "1 \<le> n"
    and "mset tbl = mset (zero_rows_of_downtime_runs gap_hours
                           (sorted_group (filter (\<lambda>r. evse_id r = e) df)))"
  shows "compute_reliability_downtime tbl gap_hours = [(e, 1, total_hours)] \<and>
         runs_table (sorted_group tbl) = [(1, e, True, total_hours)]"
proof -
  let ?grp = "sorted_group (filter (\<lambda>r. evse_id r = e) df)"
  let ?D = "downtime_runs gap_hours ?grp"
  let ?R = "zero_rows_of_downtime_runs gap_hours ?grp"
  from assms(1) have res: "(n, total_hours) = downtime_of_group gap_hours (filter (\<lambda>r. evse_id r = e) df)"
    by (simp add: compute_reliability_downtime_entry)
  then have n: "n = length ?D" and total: "total_hours = sum_list (map (\<lambda>(k, e, z, c). c) ?D)"
    by (simp_all add: downtime_of_group_def Let_def)
  from total have lenR: "length ?R = total_hours" by (simp add: length_zero_rows)
  from assms(3) have len: "length tbl = total_hours"
    using lenR by (metis size_mset)
  from n assms(2) obtain d where d: "d \<in> set ?D" by (cases ?D) auto
  obtain k e' z c where de: "d = (k, e', z, c)" by (cases d) auto
  with d have rt: "(k, e', z, c) \<in> set (runs_table ?grp)" and gc: "gap_hours \<le> int c"
    using downtime_runs_entry by blast+
  from runs_table_entry(4) [OF rt] have cpos: "0 < c" .
  have "c \<le> total_hours"
  proof -
    have "c \<in> set (map (\<lambda>(k, e, z, c). c) ?D)" using d de by force
    then have "c \<le> sum_list (map (\<lambda>(k, e, z, c). c) ?D)" by (rule member_le_sum_list) simp
    with de total show ?thesis by simp
  qed
  with gc cpos have gap: "gap_hours \<le> int (length tbl)" and ne: "tbl \<noteq> []"
    using len by auto
  have mem: "r \<in> set ?grp \<and> charging_count r = 0" if "r \<in> set tbl" for r
  proof -
    from that assms(3) have "r \<in> set ?R" by (metis set_mset_mset)
    then show ?thesis using zero_rows_subset by blast
  qed
  then have zero: "\<forall>r \<in> set tbl. charging_count r = 0"
    and ev: "\<forall>r \<in> set tbl. evse_id r = e"
    by (auto simp add: sorted_group_def)
  from ne have sne: "sorted_group tbl \<noteq> []"
    by (metis length_sort sorted_group_def length_0_conv)
  then have "hd (sorted_group tbl) \<in> set tbl"
    using hd_in_set [OF sne] by (simp add: sorted_group_def)
  with ev have hde: "evse_id (hd (sorted_group tbl)) = e" by simp
  from groupby_single [OF ev ne] downtime_of_group_all_zero(1) [OF zero ne gap] len
  have "compute_reliability_downtime tbl gap_hours = [(e, 1, total_hours)]"
    by (simp add: compute_reliability_downtime_def)
  moreover from downtime_of_group_all_zero(2) [OF zero ne gap] hde len
  have "runs_table (sorted_group tbl) = [(1, e, True, total_hours)]" by simp
  ultimately show ?thesis by simp
qed

theorem downtime_idempotence_witness:
  "(''C1'', 2, 5) \<in> set (compute_reliability_downtime idem_table 2) \<and>
   length (zero_rows_of_downtime_runs 2 (sorted_group (filter (\<lambda>r. evse_id r = ''C1'') idem_table))) = 5 \<and>
   compute_reliability_downtime
     (zero_rows_of_downtime_runs 2 (sorted_group (filter (\<lambda>r. evse_id r = ''C1'') idem_table))) 2 =
     [(''C1'', 1, 5)]"
proof -
  have h1: "(''C1'', 2, 5) \<in> set (compute_reliability_downtime idem_table 2)" by code_simp
  have h2: "(1::nat) \<le> 2" by simp
  have l: "length (zero_rows_of_downtime_runs 2
      (sorted_group (filter (\<lambda>r. evse_id r = ''C1'') idem_table))) = 5" by code_simp
  from downtime_idempotence [OF h1 h2 refl] h1 l show ?thesis by simp
qed

subsection \<open>Theorem on the peak periods\<close>

text \<open>
  Claim C2. For every frame, every entity and every \<open>top_n\<close>, the rows of the peak-periods
  output that belong to the entity are \<open>min top_n k\<close> in number, where \<open>k\<close> is the number
  of the entity's input rows; they are rows of the entity's input (as a multiset); they are
  in descending order of \<open>occupancy_rate\<close>, a missing rate last; and the rows of any one
  rate are the first of the input rows of that rate, in input order.
\<close>

theorem peak_periods_per_entity:
  "length (filter (\<lambda>r. station_id r = e) (compute_peak_periods df top_n)) =
     min top_n (length (filter (\<lambda>r. station_id r = e) df)) \<and>
   mset (filter (\<lambda>r. station_id r = e) (compute_peak_periods df top_n)) \<subseteq>#
     mset (filter (\<lambda>r. station_id r = e) df) \<and>
   sorted_wrt (\<lambda>a b. rate_ge (occupancy_rate a) (occupancy_rate b))
     (filter (\<lambda>r. station_id r = e) (compute_peak_periods df top_n)) \<and>
   filter (\<lambda>r. occupancy_rate r = v) (filter (\<lambda>r. station_id r = e) (compute_peak_periods df top_n)) =
     take (length (filter (\<lambda>r. occupancy_rate r = v)
                     (filter (\<lambda>r. station_id r = e) (compute_peak_periods df top_n))))
       (filter (\<lambda>r. occupancy_rate r = v) (filter (\<lambda>r. station_id r = e) df))"
proof -
  let ?K = "\<lambda>r. (station_id r, desc_key (occupancy_rate r))"
  let ?inp = "filter (\<lambda>r. station_id r = e) df"
  let ?S = "sort_key ?K ?inp"
  let ?out = "filter (\<lambda>r. station_id r = e) (compute_peak_periods df top_n)"
  have out: "?out = take top_n ?S" by (rule peak_periods_group)
  have all: "\<forall>r \<in> set ?inp. station_id r = e" by simp
  have "length ?out = min top_n (length ?inp)" by (simp add: out min.commute)
  moreover have "mset ?out \<subseteq># mset ?inp"
    using mset_take_subset [of top_n ?S] by (simp add: out)
  moreover have "sorted_wrt (\<lambda>a b. rate_ge (occupancy_rate a) (occupancy_rate b)) ?out"
    unfolding out by (rule sorted_wrt_take) (rule sorted_group_rate_desc [OF all])
  moreover have "filter (\<lambda>r. occupancy_rate r = v) ?out =
     take (length (filter (\<lambda>r. occupancy_rate r = v) ?out)) (filter (\<lambda>r. occupancy_rate r = v) ?inp)"
  proof -
    have "filter (\<lambda>r. occupancy_rate r = v) (take top_n ?S) =
          take (length (filter (\<lambda>r. occupancy_rate r = v) (take top_n ?S)))
            (filter (\<lambda>r. occupancy_rate r = v) ?S)"
      by (rule filter_take_prefix)
    also have "filter (\<lambda>r. occupancy_rate r = v) ?S = filter (\<lambda>r. occupancy_rate r = v) ?inp"
      by (rule sorted_group_stable [OF all])
    finally show ?thesis unfolding out .
  qed
  ultimately show ?thesis by (intro conjI)
qed

subsection \<open>Theorems on data\_prep and the entry points\<close>

text \<open>
  Claim C4. In a run of data\_prep that completes, every row of the station-level and of the
  connector-level hourly table has one count per status column, each the number of cleaned
  records of that status in the row's bucket; \<open>total\<close> is the sum of these counts;
  \<open>charging\<close> is the \<open>CHARGING\<close> count (0 without such a column) and lies between 0 and
  \<open>total\<close>; \<open>total\<close> is positive; and \<open>occupancy_rate\<close> is the finite value
  \<open>charging / total\<close>, between 0 and 1.
\<close>

theorem hourly_rows_accounting:
  assumes "data_prep_main avro_files sample_size = Inr out"
    and "t = occupancy_station_hourly out \<and> key = rec_station_id \<or>
         t = occupancy_evse_hourly out \<and> key = rec_evse_id"
    and "row \<in> set (table_rows t)"
  shows "map fst (counts row) = status_columns t \<and>
         (\<forall>s. get_count (counts row) s =
               length (filter (\<lambda>r. key r = entity row \<and> rec_hour r = hour row \<and> status r = s)
                         (flattened_sample out))) \<and>
         total row = sum_list (map snd (counts row)) \<and>
         charging row = get_count (counts row) ''CHARGING'' \<and>
         0 \<le> charging row \<and> charging row \<le> total row \<and> 0 < total row \<and>
         occupancy_rate row = Val (of_nat (charging row) / of_nat (total row)) \<and>
         (0::rat) \<le> of_nat (charging row) / of_nat (total row) \<and>
         of_nat (charging row) / of_nat (total row) \<le> (1::rat)"
proof -
  from assms(2) data_prep_main_Inr(4,5) [OF assms(1)]
  have t: "t = hourly_counts key (flattened_sample out)" by auto
  note r = assms(3) [unfolded t]
  have pos: "0 < total row" and le: "charging row \<le> total row"
    by (rule hourly_counts_row(7) [OF r], rule hourly_counts_row(8) [OF r])
  from pos have rate: "occupancy_rate row = Val (of_nat (charging row) / of_nat (total row))"
    by (simp add: hourly_counts_row(6) [OF r] true_div_def)
  from pos le have "of_nat (charging row) / of_nat (total row) \<le> (1::rat)" by simp
  moreover have "(0::rat) \<le> of_nat (charging row) / of_nat (total row)" by simp
  moreover have "map fst (counts row) = status_columns t"
    unfolding t by (rule hourly_counts_row(1) [OF r])
  moreover have "\<forall>s. get_count (counts row) s =
               length (filter (\<lambda>r. key r = entity row \<and> rec_hour r = hour row \<and> status r = s)
                         (flattened_sample out))"
    by (simp add: hourly_counts_row(2) [OF r])
  ultimately show ?thesis
    using pos le rate hourly_counts_row(3) [OF r] hourly_counts_row(5) [OF r] by simp
qed

theorem hourly_rows_accounting_witness:
  "\<exists>out row. data_prep_main sample_files 500 = Inr out \<and>
     row \<in> set (table_rows (occupancy_station_hourly out)) \<and>
     entity row = ''S1'' \<and> hour row = 1704096000 \<and>
     counts row = [(''AVAILABLE'', 1), (''CHARGING'', 1), (''OUTOFORDER'', 0)] \<and>
     total row = 2 \<and> total row = sum_list (map snd (counts row)) \<and>
     charging row = 1 \<and> charging row \<le> total row \<and> 0 < total row \<and>
     occupancy_rate row = Val (1 / 2)"
proof -
  let ?out = "projr (data_prep_main sample_files 500)"
  let ?row = "hd (table_rows (occupancy_station_hourly ?out))"
  have "\<not> isl (data_prep_main sample_files 500)" by code_simp
  then have m: "data_prep_main sample_files 500 = Inr ?out" by simp
  have r: "?row \<in> set (table_rows (occupancy_station_hourly ?out))" by code_simp
  have e: "entity ?row = ''S1''" and h: "hour ?row = 1704096000"
    and c: "counts ?row = [(''AVAILABLE'', 1), (''CHARGING'', 1), (''OUTOFORDER'', 0)]"
    and t: "total ?row = 2" and g: "charging ?row = 1"
    by code_simp+
  have k: "occupancy_station_hourly ?out = occupancy_station_hourly ?out \<and>
             rec_station_id = rec_station_id \<or>
           occupancy_station_hourly ?out = occupancy_evse_hourly ?out \<and>
             rec_station_id = rec_evse_id"
    by simp
  from hourly_rows_accounting [OF m k r]
  have "total ?row = sum_list (map snd (counts ?row))" and "charging ?row \<le> total ?row"
    and "0 < total ?row"
    and "occupancy_rate ?row = Val (of_nat (charging ?row) / of_nat (total ?row))"
    by blast+
  with m r e h c t g show ?thesis
    by (intro exI [of _ ?out] exI [of _ ?row]) simp
qed

text \<open>
  Claim C8. In a run of data\_prep that completes, no record of \<open>df_clean\<close> has the status
  \<open>UNKNOWN\<close>, both hourly tables are built from \<open>df_clean\<close> alone and have no \<open>UNKNOWN\<close>
  column, and the report written to \<open>unknown_analysis.txt\<close> carries the number of records
  before the exclusion, the number of \<open>UNKNOWN\<close> records, their percentage and the
  sentence stating the exclusion; the two numbers account for every record.
\<close>

theorem unknown_excluded_and_reported:
  assumes "data_prep_main avro_files sample_size = Inr out"
    and "df = List.map_filter normalize
                (concat (map parse_avro_file (slice_to sample_size avro_files)))"
  shows "(\<forall>r \<in> set (flattened_sample out). status r \<noteq> ''UNKNOWN'') \<and>
         flattened_sample out = filter (\<lambda>r. status r \<noteq> ''UNKNOWN'') df \<and>
         occupancy_station_hourly out = hourly_counts rec_station_id (flattened_sample out) \<and>
         occupancy_evse_hourly out = hourly_counts rec_evse_id (flattened_sample out) \<and>
         ''UNKNOWN'' \<notin> set (status_columns (occupancy_station_hourly out)) \<and>
         ''UNKNOWN'' \<notin> set (status_columns (occupancy_evse_hourly out)) \<and>
         total_records (unknown_analysis out) = length df \<and>
         unknown_count (unknown_analysis out) = length (filter (\<lambda>r. status r = ''UNKNOWN'') df) \<and>
         unknown_pct (unknown_analysis out) =
           of_nat (unknown_count (unknown_analysis out)) /
           of_nat (total_records (unknown_analysis out)) * 100 \<and>
         decision (unknown_analysis out) = ''Excluded 'UNKNOWN' status from occupancy metrics.'' \<and>
         total_records (unknown_analysis out) =
           length (flattened_sample out) + unknown_count (unknown_analysis out)"
proof -
  note f = data_prep_main_Inr [OF assms(1), folded assms(2)]
  have clean: "flattened_sample out = filter (\<lambda>r. status r \<noteq> ''UNKNOWN'') df" by (rule f(3))
  then have no: "\<forall>r \<in> set (flattened_sample out). status r \<noteq> ''UNKNOWN''" by simp
  then have cols: "''UNKNOWN'' \<notin> set (sort (remdups (map status (flattened_sample out))))"
    by auto
  have uc: "unknown_count (unknown_analysis out) = length (filter (\<lambda>r. status r = ''UNKNOWN'') df)"
    by (simp add: f(7) get_count_value_counts filter_map comp_def)
  have tr: "total_records (unknown_analysis out) = length df" by (simp add: f(7))
  have "length df = length (filter (\<lambda>r. status r \<noteq> ''UNKNOWN'') df) +
                    length (filter (\<lambda>r. status r = ''UNKNOWN'') df)"
    using sum_length_filter_compl [of "\<lambda>r. status r \<noteq> ''UNKNOWN''" df] by simp
  with clean uc tr have acc: "total_records (unknown_analysis out) =
      length (flattened_sample out) + unknown_count (unknown_analysis out)" by simp
  have pct: "unknown_pct (unknown_analysis out) =
           of_nat (unknown_count (unknown_analysis out)) /
           of_nat (total_records (unknown_analysis out)) * 100"
    by (simp add: f(7))
  have dec: "decision (unknown_analysis out) = ''Excluded 'UNKNOWN' status from occupancy metrics.''"
    by (simp add: f(7))
  from cols have c1: "''UNKNOWN'' \<notin> set (status_columns (occupancy_station_hourly out))"
    and c2: "''UNKNOWN'' \<notin> set (status_columns (occupancy_evse_hourly out))"
    by (simp_all only: f(4) f(5) hourly_counts_columns not_False_eq_True)
  from no clean f(4) f(5) c1 c2 tr uc pct dec acc show ?thesis by (intro conjI)
qed

theorem unknown_excluded_and_reported_witness:
  "\<exists>out. data_prep_main sample_files 500 = Inr out \<and>
     map status (flattened_sample out) = [''CHARGING'', ''AVAILABLE'', ''OUTOFORDER''] \<and>
     status_columns (occupancy_station_hourly out) = [''AVAILABLE'', ''CHARGING'', ''OUTOFORDER''] \<and>
     ''UNKNOWN'' \<notin> set (status_columns (occupancy_station_hourly out)) \<and>
     unknown_analysis out =
       \<lparr>total_records = 4, unknown_count = 1, unknown_pct = 25,
        decision = ''Excluded 'UNKNOWN' status from occupancy metrics.''\<rparr>"
proof -
  let ?out = "projr (data_prep_main sample_files 500)"
  have "\<not> isl (data_prep_main sample_files 500)" by code_simp
  then have m: "data_prep_main sample_files 500 = Inr ?out" by simp
  have s: "map status (flattened_sample ?out) = [''CHARGING'', ''AVAILABLE'', ''OUTOFORDER'']"
    and c: "status_columns (occupancy_station_hourly ?out) =
            [''AVAILABLE'', ''CHARGING'', ''OUTOFORDER'']"
    and u: "unknown_analysis ?out =
       \<lparr>total_records = 4, unknown_count = 1, unknown_pct = 25,
        decision = ''Excluded 'UNKNOWN' status from occupancy metrics.''\<rparr>"
    by code_simp+
  from unknown_excluded_and_reported [OF m refl]
  have "''UNKNOWN'' \<notin> set (status_columns (occupancy_station_hourly ?out))" by blast
  with m s c u show ?thesis by (intro exI [of _ ?out]) simp
qed

text \<open>
  Claim C3 asks that a run left without a qualifying record reports the empty input and
  halts. data\_prep does so when no file is found. With files that hold no record the
  first \<open>dropna\<close> raises \<open>KeyError\<close>; with records that all lack a field or a readable
  timestamp the percentage raises \<open>ZeroDivisionError\<close>; with records that are all \<open>UNKNOWN\<close>
  the run completes and writes two empty hourly tables.
\<close>

theorem empty_input_runs:
  "data_prep_main [] 500 = Inl (SystemExit 1) \<and>
   data_prep_main [[]] 500 = Inl (KeyError ''['station_id', 'evse_id', 'status', 'timestamp']'') \<and>
   data_prep_main null_field_files 500 = Inl ZeroDivisionError \<and>
   data_prep_main unknown_only_files 500 =
     Inr \<lparr>status_summary = [(''UNKNOWN'', 1)],
          occupancy_station_hourly = \<lparr>status_columns = [], table_rows = []\<rparr>,
          occupancy_evse_hourly = \<lparr>status_columns = [], table_rows = []\<rparr>,
          flattened_sample = [],
          unknown_analysis =
            \<lparr>total_records = 1, unknown_count = 1, unknown_pct = 100,
             decision = ''Excluded 'UNKNOWN' status from occupancy metrics.''\<rparr>\<rparr>"
proof -
  have "data_prep_main [] 500 = Inl (SystemExit 1)" by code_simp
  moreover have "data_prep_main [[]] 500 = Inl (KeyError ''['station_id', 'evse_id', 'status', 'timestamp']'')" by code_simp
  moreover have "data_prep_main null_field_files 500 = Inl ZeroDivisionError" by code_simp
  moreover have "data_prep_main unknown_only_files 500 =
     Inr \<lparr>status_summary = [(''UNKNOWN'', 1)],
          occupancy_station_hourly = \<lparr>status_columns = [], table_rows = []\<rparr>,
          occupancy_evse_hourly = \<lparr>status_columns = [], table_rows = []\<rparr>,
          flattened_sample = [],
          unknown_analysis =
            \<lparr>total_records = 1, unknown_count = 1, unknown_pct = 100,
             decision = ''Excluded 'UNKNOWN' status from occupancy metrics.''\<rparr>\<rparr>"
    by code_simp
  ultimately show ?thesis by (intro conjI)
qed

text \<open>
  Claim C5. On a station table with an \<open>AVAILABLE\<close> column the refined frame holds, in
  table order, exactly the rows with \<open>charging + available \<noteq> 0\<close>, each with the rate
  \<open>charging / (charging + available)\<close>. For the bucket of station \<open>S1\<close> with 3
  \<open>CHARGING\<close> and 7 \<open>AVAILABLE\<close> records the baseline and the refined rate are both
  \<open>3/10\<close>; with 2 \<open>OUTOFORDER\<close> records more the baseline rate is \<open>3/12 = 1/4\<close> and
  the refined rate is still \<open>3/10\<close>.
\<close>

theorem refined_rate:
  "(''AVAILABLE'' \<in> set (status_columns t) \<longrightarrow>
      station_ref t =
        Inr (map (\<lambda>row. \<lparr>hour = hour row,
                    occupancy_rate = Val (of_nat (charging row) /
                                          of_nat (charging row + get_count (counts row) ''AVAILABLE'')),
                    station_id = entity row\<rparr>)
               (filter (\<lambda>row. charging row + get_count (counts row) ''AVAILABLE'' \<noteq> 0)
                  (table_rows t)))) \<and>
   map (\<lambda>row. (entity row, hour row, counts row, occupancy_rate row))
     (table_rows (hourly_counts rec_station_id (s1_bucket 3 7 0))) =
     [(''S1'', 1704096000, [(''AVAILABLE'', 7), (''CHARGING'', 3)], Val (3 / 10))] \<and>
   station_ref (hourly_counts rec_station_id (s1_bucket 3 7 0)) =
     Inr [\<lparr>hour = 1704096000, occupancy_rate = Val (3 / 10), station_id = ''S1''\<rparr>] \<and>
   map (\<lambda>row. (entity row, hour row, counts row, occupancy_rate row))
     (table_rows (hourly_counts rec_station_id (s1_bucket 3 7 2))) =
     [(''S1'', 1704096000, [(''AVAILABLE'', 7), (''CHARGING'', 3), (''OUTOFORDER'', 2)],
       Val (1 / 4))] \<and>
   station_ref (hourly_counts rec_station_id (s1_bucket 3 7 2)) =
     Inr [\<lparr>hour = 1704096000, occupancy_rate = Val (3 / 10), station_id = ''S1''\<rparr>]"
proof -
  have "map (\<lambda>row. (entity row, hour row, counts row, occupancy_rate row))
     (table_rows (hourly_counts rec_station_id (s1_bucket 3 7 0))) =
     [(''S1'', 1704096000, [(''AVAILABLE'', 7), (''CHARGING'', 3)], Val (3 / 10))]"
    by code_simp
  moreover have "station_ref (hourly_counts rec_station_id (s1_bucket 3 7 0)) =
     Inr [\<lparr>hour = 1704096000, occupancy_rate = Val (3 / 10), station_id = ''S1''\<rparr>]"
    by code_simp
  moreover have "map (\<lambda>row. (entity row, hour row, counts row, occupancy_rate row))
     (table_rows (hourly_counts rec_station_id (s1_bucket 3 7 2))) =
     [(''S1'', 1704096000, [(''AVAILABLE'', 7), (''CHARGING'', 3), (''OUTOFORDER'', 2)],
       Val (1 / 4))]"
    by code_simp
  moreover have "station_ref (hourly_counts rec_station_id (s1_bucket 3 7 2)) =
     Inr [\<lparr>hour = 1704096000, occupancy_rate = Val (3 / 10), station_id = ''S1''\<rparr>]"
    by code_simp
  ultimately show ?thesis using station_ref_available [of t] by (intro conjI impI)
qed

theorem refined_rate_witness:
  "''AVAILABLE'' \<in> set (status_columns (occupancy_station_hourly (projr (data_prep_main sample_files 500)))) \<and>
   map (\<lambda>row. (entity row, charging row, get_count (counts row) ''AVAILABLE''))
     (table_rows (occupancy_station_hourly (projr (data_prep_main sample_files 500)))) =
     [(''S1'', 1, 1), (''S2'', 0, 0)] \<and>
   station_ref (occupancy_station_hourly (projr (data_prep_main sample_files 500))) =
     Inr [\<lparr>hour = 1704096000, occupancy_rate = Val (1 / 2), station_id = ''S1''\<rparr>]"
proof -
  let ?t = "occupancy_station_hourly (projr (data_prep_main sample_files 500))"
  have a: "''AVAILABLE'' \<in> set (status_columns ?t)" by code_simp
  have r: "map (\<lambda>row. (entity row, charging row, get_count (counts row) ''AVAILABLE''))
     (table_rows ?t) = [(''S1'', 1, 1), (''S2'', 0, 0)]" by code_simp
  have v: "map (\<lambda>row. \<lparr>hour = hour row,
                 occupancy_rate = Val (of_nat (charging row) /
                                       of_nat (charging row + get_count (counts row) ''AVAILABLE'')),
                 station_id = entity row\<rparr>)
            (filter (\<lambda>row. charging row + get_count (counts row) ''AVAILABLE'' \<noteq> 0)
               (table_rows ?t)) =
        [\<lparr>hour = 1704096000, occupancy_rate = Val (1 / 2), station_id = ''S1''\<rparr>]"
    by code_simp
  from refined_rate [of ?t] a have "station_ref ?t =
        Inr (map (\<lambda>row. \<lparr>hour = hour row,
                    occupancy_rate = Val (of_nat (charging row) /
                                          of_nat (charging row + get_count (counts row) ''AVAILABLE'')),
                    station_id = entity row\<rparr>)
               (filter (\<lambda>row. charging row + get_count (counts row) ''AVAILABLE'' \<noteq> 0)
                  (table_rows ?t)))"
    by blast
  with v have "station_ref ?t =
     Inr [\<lparr>hour = 1704096000, occupancy_rate = Val (1 / 2), station_id = ''S1''\<rparr>]"
    by (simp only:)
  with a r show ?thesis by (intro conjI)
qed

text \<open>
  Claim C9. Whatever the two input tables are, \<open>main\<close> of compute\_metrics ends with
  \<open>NameError\<close> for the name \<open>compute_capacity_pressure\<close>, so none of the five tables is
  written: the module binds \<open>compute_capacity_pressure_messages\<close> only. The refined
  module binds the name that is called.
\<close>

theorem compute_metrics_main_name_error:
  "compute_metrics_main station_parquet evse_parquet = Inl (NameError ''compute_capacity_pressure'') \<and>
   map fst compute_metrics_globals = [''compute_capacity_pressure_messages''] \<and>
   load_global compute_metrics_refined_globals ''compute_capacity_pressure'' =
     Inr compute_capacity_pressure"
  by (simp add: compute_metrics_main_def load_global_def compute_metrics_globals_def
      compute_metrics_refined_globals_def Let_def)

text \<open>
  Claim C10. After a run of data\_prep that completes, the refined entry point fails with
  \<open>KeyError('AVAILABLE')\<close> exactly when no cleaned record has the status \<open>AVAILABLE\<close>, and
  returns its five tables otherwise, with or without \<open>CHARGING\<close> records. Without a
  \<open>CHARGING\<close> record every row of both hourly tables has \<open>charging = 0\<close> and the rate 0.
\<close>

theorem refined_needs_available:
  assumes "data_prep_main avro_files sample_size = Inr out"
  shows "(''AVAILABLE'' \<notin> status ` set (flattened_sample out) \<longrightarrow>
            compute_metrics_refined_main (occupancy_station_hourly out) (occupancy_evse_hourly out) =
              Inl (KeyError ''AVAILABLE'')) \<and>
         (''AVAILABLE'' \<in> status ` set (flattened_sample out) \<longrightarrow>
            (\<exists>res. compute_metrics_refined_main (occupancy_station_hourly out)
                     (occupancy_evse_hourly out) = Inr res)) \<and>
         (''CHARGING'' \<notin> status ` set (flattened_sample out) \<longrightarrow>
            (\<forall>row \<in> set (table_rows (occupancy_station_hourly out)) \<union>
                      set (table_rows (occupancy_evse_hourly out)).
               charging row = 0 \<and> occupancy_rate row = Val 0))"
proof -
  note f = data_prep_main_Inr [OF assms]
  have cols: "set (status_columns (occupancy_station_hourly out)) = status ` set (flattened_sample out)"
    by (simp add: f(4) hourly_counts_columns)
  have a: "''AVAILABLE'' \<notin> status ` set (flattened_sample out) \<longrightarrow>
            compute_metrics_refined_main (occupancy_station_hourly out) (occupancy_evse_hourly out) =
              Inl (KeyError ''AVAILABLE'')"
    using refined_main_no_available cols by blast
  have b: "''AVAILABLE'' \<in> status ` set (flattened_sample out) \<longrightarrow>
            (\<exists>res. compute_metrics_refined_main (occupancy_station_hourly out)
                     (occupancy_evse_hourly out) = Inr res)"
    using refined_main_available cols by blast
  have c: "''CHARGING'' \<notin> status ` set (flattened_sample out) \<longrightarrow>
            (\<forall>row \<in> set (table_rows (occupancy_station_hourly out)) \<union>
                      set (table_rows (occupancy_evse_hourly out)).
               charging row = 0 \<and> occupancy_rate row = Val 0)"
  proof (intro impI ballI)
    fix row
    assume nc: "''CHARGING'' \<notin> status ` set (flattened_sample out)"
      and "row \<in> set (table_rows (occupancy_station_hourly out)) \<union>
                 set (table_rows (occupancy_evse_hourly out))"
    then obtain key where r: "row \<in> set (table_rows (hourly_counts key (flattened_sample out)))"
      using f(4) f(5) by auto
    from hourly_counts_no_charging [OF nc r] have z: "charging row = 0" .
    from hourly_counts_row(7) [OF r] have "0 < total row" .
    with z hourly_counts_row(6) [OF r] show "charging row = 0 \<and> occupancy_rate row = Val 0"
      by (simp add: true_div_def)
  qed
  from a b c show ?thesis by (intro conjI)
qed

theorem refined_needs_available_witness:
  "(\<exists>out. data_prep_main charging_only_files 500 = Inr out \<and>
      ''AVAILABLE'' \<notin> status ` set (flattened_sample out) \<and>
      compute_metrics_refined_main (occupancy_station_hourly out) (occupancy_evse_hourly out) =
        Inl (KeyError ''AVAILABLE'')) \<and>
   (\<exists>out res. data_prep_main available_only_files 500 = Inr out \<and>
      ''AVAILABLE'' \<in> status ` set (flattened_sample out) \<and>
      ''CHARGING'' \<notin> status ` set (flattened_sample out) \<and>
      map charging (table_rows (occupancy_station_hourly out)) = [0, 0] \<and>
      compute_metrics_refined_main (occupancy_station_hourly out) (occupancy_evse_hourly out) =
        Inr res)"
proof -
  let ?o1 = "projr (data_prep_main charging_only_files 500)"
  let ?o2 = "projr (data_prep_main available_only_files 500)"
  have "\<not> isl (data_prep_main charging_only_files 500)" by code_simp
  then have m1: "data_prep_main charging_only_files 500 = Inr ?o1" by simp
  have "\<not> isl (data_prep_main available_only_files 500)" by code_simp
  then have m2: "data_prep_main available_only_files 500 = Inr ?o2" by simp
  have s1: "map status (flattened_sample ?o1) = [''CHARGING'', ''OUTOFORDER'']" by code_simp
  have s2: "map status (flattened_sample ?o2) = [''AVAILABLE'', ''OUTOFORDER'']" by code_simp
  have n1: "''AVAILABLE'' \<notin> status ` set (flattened_sample ?o1)"
    using s1 by (simp flip: set_map)
  have n2: "''AVAILABLE'' \<in> status ` set (flattened_sample ?o2)"
    and n3: "''CHARGING'' \<notin> status ` set (flattened_sample ?o2)"
    using s2 by (simp_all flip: set_map)
  have c2: "map charging (table_rows (occupancy_station_hourly ?o2)) = [0, 0]" by code_simp
  from refined_needs_available [OF m1] n1
  have e1: "compute_metrics_refined_main (occupancy_station_hourly ?o1) (occupancy_evse_hourly ?o1) =
        Inl (KeyError ''AVAILABLE'')" by blast
  from refined_needs_available [OF m2] n2
  obtain res where e2: "compute_metrics_refined_main (occupancy_station_hourly ?o2)
      (occupancy_evse_hourly ?o2) = Inr res" by blast
  from m1 n1 e1 have "\<exists>out. data_prep_main charging_only_files 500 = Inr out \<and>
      ''AVAILABLE'' \<notin> status ` set (flattened_sample out) \<and>
      compute_metrics_refined_main (occupancy_station_hourly out) (occupancy_evse_hourly out) =
        Inl (KeyError ''AVAILABLE'')" by (intro exI [of _ ?o1] conjI)
  moreover from m2 n2 n3 c2 e2 have "\<exists>out res. data_prep_main available_only_files 500 = Inr out \<and>
      ''AVAILABLE'' \<in> status ` set (flattened_sample out) \<and>
      ''CHARGING'' \<notin> status ` set (flattened_sample out) \<and>
      map charging (table_rows (occupancy_station_hourly out)) = [0, 0] \<and>
      compute_metrics_refined_main (occupancy_station_hourly out) (occupancy_evse_hourly out) =
        Inr res" by (intro exI [of _ ?o2] exI [of _ res] conjI)
  ultimately show ?thesis by (rule conjI)
qed


end
